theory Spec2Isabelle
  imports Main "HOL-Library.AList"
begin

section \<open>Data model of \<open>externalChanges.ts\<close>\<close>

text \<open>
  The type declarations \<open>IDeployedFile\<close>, \<open>IFileEntry\<close>, \<open>IFileChange\<close> and \<open>IProfile\<close>
  are imported by \<open>externalChanges.ts\<close> from other modules. The records below carry the
  fields the functions read. A \<open>filePath\<close> is optional because the code itself tests it
  with \<open>truthy\<close>; modification dates are compared through their numeric value.
\<close>

datatype FileAction = Import | Drop | Restore | Delete | Newest | Nop

record IDeployedFile =
  relPath :: string
  source :: string
  time :: int

record IFileEntry =
  filePath :: "string option"
  source :: string
  action :: FileAction
  modTypeId :: string
  sourceModified :: int
  destModified :: int

datatype IFileChange = IFileChange string string string

record IProfile =
  id' :: string
  gameId :: string

text \<open>
  The part of the application state the functions read: the profile table
  (\<open>state.persistent.profiles\<close>, read through \<open>getSafe\<close> and \<open>profileById\<close>) and the
  values of the selectors \<open>activeProfile\<close> and \<open>activeGameId\<close>, which are defined in
  another module and therefore taken as given.
\<close>

record State =
  profiles :: "string \<rightharpoonup> IProfile"
  activeProfile :: "IProfile option"
  activeGameId :: "string option"

datatype error =
    Error string
  | TypeError string
  | ProcessCanceled string
  | FsError string string

text \<open>
  The file operations the module issues: \<open>Remove p\<close> is \<open>fs.removeAsync(p)\<close> and
  \<open>Move a b\<close> is \<open>fs.moveAsync(a, b, { overwrite: true })\<close>, the only form in which the
  module calls it.
\<close>

datatype fs_op = Remove string | Move string string

text \<open>
  Everything outside the module is a parameter: \<open>path.join\<close> on strings, the two file
  operations of \<open>util/fs\<close> (each may fail with any error and changes the file system
  \<open>'fs\<close>), the deployment method's \<open>externalChanges\<close> query and the dialog behind
  \<open>showExternalChanges\<close>.
\<close>

record 'fs env =
  path_join :: "string list \<Rightarrow> string"
  removeAsync :: "string \<Rightarrow> 'fs \<Rightarrow> error option \<times> 'fs"
  moveAsync :: "string \<Rightarrow> string \<Rightarrow> 'fs \<Rightarrow> error option \<times> 'fs"
  externalChanges ::
    "string \<Rightarrow> string \<Rightarrow> string option \<Rightarrow> IDeployedFile list \<Rightarrow> 'fs \<Rightarrow> error + IFileChange list"
  showExternalChanges ::
    "(string \<times> IFileChange list) list \<Rightarrow> error + IFileEntry list option"

text \<open>
  The world the functions act on: the file system, and in order of occurrence the file
  operations issued, the log lines written, the \<open>mod-content-changed\<close> events emitted
  (game id and mod id), the mod types queried from the deployment method and the change
  sets shown in the dialog.
\<close>

record 'fs world =
  fs :: 'fs
  ops :: "fs_op list"
  logs :: "(string \<times> string) list"
  events :: "(string option \<times> string) list"
  queries :: "string list"
  shown :: "(string \<times> IFileChange list) list list"

type_synonym 'fs task = "'fs world \<Rightarrow> error option \<times> 'fs world"

section \<open>Helpers\<close>

definition truthy :: "string option \<Rightarrow> bool" where
  "truthy val = (case val of None \<Rightarrow> False | Some s \<Rightarrow> s \<noteq> [])"

definition setdefault :: "('k \<rightharpoonup> 'v) \<Rightarrow> 'k \<Rightarrow> 'v \<Rightarrow> ('k \<rightharpoonup> 'v) \<times> 'v" where
  "setdefault obj key def =
     (let obj' = (if obj key = None then obj(key \<mapsto> def) else obj)
      in (obj', the (obj' key)))"

definition log :: "string \<Rightarrow> string \<Rightarrow> 'fs world \<Rightarrow> 'fs world" where
  "log level message w = w\<lparr>logs := logs w @ [(level, message)]\<rparr>"

text \<open>\<open>path.join\<close> throws a \<open>TypeError\<close> when an argument is not a string.\<close>

definition js_path_join :: "'fs env \<Rightarrow> string option list \<Rightarrow> error + string" where
  "js_path_join env args =
     (if None \<in> set args then Inl (TypeError ''path must be a string'')
      else Inr (path_join env (map the args)))"

definition fs_remove :: "'fs env \<Rightarrow> string \<Rightarrow> 'fs task" where
  "fs_remove env p w =
     (let (r, f) = removeAsync env p (fs w)
      in (r, w\<lparr>fs := f, ops := ops w @ [Remove p]\<rparr>))"

definition fs_move :: "'fs env \<Rightarrow> string \<Rightarrow> string \<Rightarrow> 'fs task" where
  "fs_move env src dst w =
     (let (r, f) = moveAsync env src dst (fs w)
      in (r, w\<lparr>fs := f, ops := ops w @ [Move src dst]\<rparr>))"

text \<open>
  \<open>Promise.map\<close> of bluebird over an array of plain values: the mapper is called on the
  elements in order within one tick. A mapper that throws or returns an already rejected
  promise rejects the result at once and ends the iteration; a mapper that returns a
  pending promise has started its operation, which runs to its end whatever happens to
  the others. The model settles the started operations one after the other in list
  order, and its result is the synchronous rejection if there is one, the first failed
  operation of the list otherwise. That is one of the schedules the runtime allows: in
  another one the operations of different entries interleave, and the failure that
  arrives first wins. The statements on passes of several decisions therefore speak of
  the operations an entry issues and of whether the pass resolves, never of the order
  between the operations of different entries or of which of several failures is
  reported.
\<close>

fun start_all :: "('a \<Rightarrow> error + 't) \<Rightarrow> 'a list \<Rightarrow> 't list \<times> error option" where
  "start_all f [] = ([], None)"
| "start_all f (x # xs) =
     (case f x of
        Inl e \<Rightarrow> ([], Some e)
      | Inr t \<Rightarrow> (let (ts, r) = start_all f xs in (t # ts, r)))"

fun run_all :: "'fs task list \<Rightarrow> 'fs task" where
  "run_all [] w = (None, w)"
| "run_all (t # ts) w =
     (let (r, w1) = t w; (rs, w2) = run_all ts w1
      in (case r of Some e \<Rightarrow> (Some e, w2) | None \<Rightarrow> (rs, w2)))"

definition promise_map :: "('a \<Rightarrow> error + 'fs task) \<Rightarrow> 'a list \<Rightarrow> 'fs task" where
  "promise_map f xs w =
     (let (ts, sync) = start_all f xs; (async, w') = run_all ts w
      in (case sync of Some e \<Rightarrow> (Some e, w') | None \<Rightarrow> (async, w')))"

text \<open>A JavaScript \<open>Set\<close> of strings: distinct values in insertion order.\<close>

definition set_add :: "'a list \<Rightarrow> 'a \<Rightarrow> 'a list" where
  "set_add s x = (if x \<in> set s then s else s @ [x])"

section \<open>\<open>applyFileActions\<close>\<close>

definition resolveAction :: "IFileEntry \<Rightarrow> FileAction" where
  "resolveAction v =
     (if action v = Newest
      then (if sourceModified v > destModified v then Drop else Import)
      else action v)"

text \<open>The reducer: \<open>setdefault(prev, action, []).push(value)\<close>.\<close>

definition push_action ::
  "(FileAction \<rightharpoonup> IFileEntry list) \<Rightarrow> IFileEntry \<Rightarrow> (FileAction \<rightharpoonup> IFileEntry list)" where
  "push_action prev v =
     (let (prev', l) = setdefault prev (resolveAction v) []
      in prev'(resolveAction v \<mapsto> l @ [v]))"

definition actionGroups :: "IFileEntry list \<Rightarrow> (FileAction \<rightharpoonup> IFileEntry list)" where
  "actionGroups fileActions = foldl push_action Map.empty fileActions"

text \<open>The callback of \<open>fileActions.forEach\<close> that fills \<open>affectedMods\<close>.\<close>

definition add_affected :: "string list \<Rightarrow> IFileEntry \<Rightarrow> string list" where
  "add_affected s a =
     (if action a \<in> set [Import, Newest, Nop, Delete, Drop] then set_add s (source a) else s)"

text \<open>\<open>actionGroups[a] || []\<close>\<close>

definition group :: "(FileAction \<rightharpoonup> IFileEntry list) \<Rightarrow> FileAction \<Rightarrow> IFileEntry list" where
  "group g a = (case g a of None \<Rightarrow> [] | Some l \<Rightarrow> l)"

definition drop_entry :: "'fs env \<Rightarrow> string option \<Rightarrow> IFileEntry \<Rightarrow> error + 'fs task" where
  "drop_entry env outputPath entry =
     (if truthy (filePath entry)
      then (case js_path_join env [outputPath, filePath entry] of
              Inl e \<Rightarrow> Inl e
            | Inr p \<Rightarrow> Inr (fs_remove env p))
      else Inl (Error ''invalid file path''))"

definition delete_entry :: "'fs env \<Rightarrow> string \<Rightarrow> IFileEntry \<Rightarrow> error + 'fs task" where
  "delete_entry env sourcePath entry =
     (if truthy (filePath entry)
      then (case js_path_join env [Some sourcePath, Some (source entry), filePath entry] of
              Inl e \<Rightarrow> Inl e
            | Inr p \<Rightarrow> Inr (fs_remove env p))
      else Inl (Error ''invalid file path''))"

text \<open>\<open>.catch({ code: 'ENOENT' }, ...)\<close> handles the errors whose \<open>code\<close> is \<open>ENOENT\<close>.\<close>

fun is_ENOENT :: "error \<Rightarrow> bool" where
  "is_ENOENT (FsError code p) = (code = ''ENOENT'')"
| "is_ENOENT _ = False"

definition import_task :: "'fs env \<Rightarrow> string \<Rightarrow> string \<Rightarrow> 'fs task" where
  "import_task env src deployed w =
     (let (r, w1) = fs_remove env src w;
          (r', w2) = (case r of None \<Rightarrow> fs_move env deployed src w1 | Some e \<Rightarrow> (Some e, w1))
      in (case r' of
            None \<Rightarrow> (None, w2)
          | Some e \<Rightarrow> (if is_ENOENT e then (None, log ''warn'' ''file disappeared'' w2)
                      else (Some e, w2))))"

definition import_entry ::
  "'fs env \<Rightarrow> string \<Rightarrow> string option \<Rightarrow> IFileEntry \<Rightarrow> error + 'fs task" where
  "import_entry env sourcePath outputPath entry =
     (case js_path_join env [Some sourcePath, Some (source entry), filePath entry] of
        Inl e \<Rightarrow> Inl e
      | Inr src \<Rightarrow>
         (case js_path_join env [outputPath, filePath entry] of
            Inl e \<Rightarrow> Inl e
          | Inr deployed \<Rightarrow> Inr (import_task env src deployed)))"

definition dropSet :: "(FileAction \<rightharpoonup> IFileEntry list) \<Rightarrow> string option list" where
  "dropSet g =
     concat [map filePath (group g Restore), map filePath (group g Drop),
             map filePath (group g Delete), map filePath (group g Import)]"

definition newDeployment ::
  "(FileAction \<rightharpoonup> IFileEntry list) \<Rightarrow> IDeployedFile list \<Rightarrow> IDeployedFile list" where
  "newDeployment g lastDeployment =
     filter (\<lambda>entry. Some (relPath entry) \<notin> set (dropSet g)) lastDeployment"

definition affectedMods :: "IFileEntry list \<Rightarrow> string list" where
  "affectedMods fileActions = foldl add_affected [] fileActions"

definition eventGameId :: "State \<Rightarrow> string option \<Rightarrow> string option" where
  "eventGameId state profileId =
     (let g = (case profileId of
                 None \<Rightarrow> None
               | Some pid \<Rightarrow> (case profiles state pid of
                                None \<Rightarrow> None
                              | Some profile \<Rightarrow> Some (id' profile)))
      in (case g of None \<Rightarrow> activeGameId state | Some x \<Rightarrow> Some x))"

definition emit_all :: "string option \<Rightarrow> string list \<Rightarrow> 'fs world \<Rightarrow> 'fs world" where
  "emit_all g mods w = w\<lparr>events := events w @ map (\<lambda>affected. (g, affected)) mods\<rparr>"

definition applyFileActions ::
  "'fs env \<Rightarrow> State \<Rightarrow> string option \<Rightarrow> string \<Rightarrow> string option \<Rightarrow> IDeployedFile list
     \<Rightarrow> IFileEntry list option \<Rightarrow> 'fs world \<Rightarrow> (error + IDeployedFile list) \<times> 'fs world" where
  "applyFileActions env state profileId sourcePath outputPath lastDeployment fileActions w =
     (case fileActions of
        None \<Rightarrow> (Inr lastDeployment, w)
      | Some fa \<Rightarrow>
         (let g = actionGroups fa;
              (r1, w1) = promise_map (drop_entry env outputPath) (group g Drop) w
          in case r1 of
               Some e \<Rightarrow> (Inl e, w1)
             | None \<Rightarrow>
                (let (r2, w2) = promise_map (delete_entry env sourcePath) (group g Delete) w1
                 in case r2 of
                      Some e \<Rightarrow> (Inl e, w2)
                    | None \<Rightarrow>
                       (let (r3, w3) =
                              promise_map (import_entry env sourcePath outputPath) (group g Import) w2
                        in case r3 of
                             Some e \<Rightarrow> (Inl e, w3)
                           | None \<Rightarrow>
                              (Inr (newDeployment g lastDeployment),
                               emit_all (eventGameId state profileId) (affectedMods fa) w3)))))"

section \<open>\<open>checkForExternalChanges\<close>\<close>

text \<open>
  The objects \<open>modPaths\<close>, \<open>lastDeployment\<close> and \<open>changes\<close> are association lists:
  the keys stand in the order in which \<open>Object.keys\<close> lists them, a read is
  \<open>map_of\<close>, and an assignment replaces the value at the key's position or appends a
  new key.
\<close>

type_synonym 'v obj = "(string \<times> 'v) list"

definition resolveProfile :: "State \<Rightarrow> string option \<Rightarrow> IProfile option" where
  "resolveProfile state profileId =
     (case profileId of
        Some pid \<Rightarrow> profiles state pid
      | None \<Rightarrow> activeProfile state)"

text \<open>
  The callback of \<open>Promise.each\<close>, run for one key after the other; the first rejection
  ends the iteration. Reading \<open>lastDeployment[typeId].length\<close> throws when the manifest
  of the mod type is missing.
\<close>

fun check_each ::
  "'fs env \<Rightarrow> IProfile \<Rightarrow> string \<Rightarrow> string obj \<Rightarrow> IDeployedFile list obj \<Rightarrow> string list
     \<Rightarrow> IFileChange list obj \<Rightarrow> 'fs world \<Rightarrow> (error + IFileChange list obj) \<times> 'fs world" where
  "check_each env profile stagingPath modPaths lastDeployment [] changes w = (Inr changes, w)"
| "check_each env profile stagingPath modPaths lastDeployment (typeId # rest) changes w =
     (case map_of lastDeployment typeId of
        None \<Rightarrow> (Inl (TypeError ''Cannot read property length of undefined''), w)
      | Some deployed \<Rightarrow>
         (let w1 = (log ''debug'' ''checking external changes'' w)
                     \<lparr>queries := queries w @ [typeId]\<rparr>
          in case externalChanges env (gameId profile) stagingPath (map_of modPaths typeId)
                    deployed (fs w1) of
               Inl e \<Rightarrow> (Inl e, w1)
             | Inr fileChanges \<Rightarrow>
                check_each env profile stagingPath modPaths lastDeployment rest
                  (if length fileChanges > 0 then AList.update typeId fileChanges changes
                   else changes) w1))"

definition checkForExternalChanges ::
  "'fs env \<Rightarrow> State \<Rightarrow> string option \<Rightarrow> string \<Rightarrow> string obj \<Rightarrow> IDeployedFile list obj
     \<Rightarrow> 'fs world \<Rightarrow> (error + IFileChange list obj) \<times> 'fs world" where
  "checkForExternalChanges env state profileId stagingPath modPaths lastDeployment w =
     (let w0 = log ''debug'' ''determine external changes'' w
      in case resolveProfile state profileId of
           None \<Rightarrow> (Inl (ProcessCanceled ''Profile no longer exists.''), w0)
         | Some profile \<Rightarrow>
            check_each env profile stagingPath modPaths lastDeployment (map fst modPaths) [] w0)"

section \<open>\<open>dealWithExternalChanges\<close>\<close>

text \<open>
  The callback of \<open>Promise.mapSeries\<close> over the keys of \<open>lastDeployment\<close>: each key is
  handled after the one before it has resolved, and the resolved manifest is assigned to
  \<open>lastDeployment[typeId]\<close>. The caller's object is mutated in place, so the function
  returns it together with its result, also when a later key rejects.
  \<open>fileActions.filter\<close> throws when the dialog resolved to \<open>undefined\<close>. The keys are
  those of \<open>lastDeployment\<close> itself, so its read is never \<open>undefined\<close>.
\<close>

fun apply_each ::
  "'fs env \<Rightarrow> State \<Rightarrow> string option \<Rightarrow> string \<Rightarrow> string obj \<Rightarrow> IFileEntry list option
     \<Rightarrow> string list \<Rightarrow> IDeployedFile list obj \<Rightarrow> IDeployedFile list list \<Rightarrow> 'fs world
     \<Rightarrow> (error + IDeployedFile list list) \<times> IDeployedFile list obj \<times> 'fs world" where
  "apply_each env state profileId stagingPath modPaths fileActions [] lastDeployment res w =
     (Inr res, lastDeployment, w)"
| "apply_each env state profileId stagingPath modPaths fileActions (typeId # rest) lastDeployment res w =
     (case fileActions of
        None \<Rightarrow> (Inl (TypeError ''Cannot read property filter of undefined''), lastDeployment, w)
      | Some fa \<Rightarrow>
         (case map_of lastDeployment typeId of
            None \<Rightarrow> (Inl (TypeError ''Cannot read property filter of undefined''), lastDeployment, w)
          | Some deployed \<Rightarrow>
             (case applyFileActions env state profileId stagingPath (map_of modPaths typeId)
                     deployed (Some (filter (\<lambda>a. modTypeId a = typeId) fa)) w of
                (Inl e, w1) \<Rightarrow> (Inl e, lastDeployment, w1)
              | (Inr newLastDeployment, w1) \<Rightarrow>
                 apply_each env state profileId stagingPath modPaths fileActions rest
                   (AList.update typeId newLastDeployment lastDeployment)
                   (res @ [newLastDeployment]) w1)))"

definition dealWithExternalChanges ::
  "'fs env \<Rightarrow> State \<Rightarrow> string option \<Rightarrow> string \<Rightarrow> string obj \<Rightarrow> IDeployedFile list obj
     \<Rightarrow> 'fs world
     \<Rightarrow> (error + IDeployedFile list list) \<times> IDeployedFile list obj \<times> 'fs world" where
  "dealWithExternalChanges env state profileId stagingPath modPaths lastDeployment w =
     (case checkForExternalChanges env state profileId stagingPath modPaths lastDeployment w of
        (Inl e, w1) \<Rightarrow> (Inl e, lastDeployment, w1)
      | (Inr changes, w1) \<Rightarrow>
         (let (r, w2) =
                (if length changes > 0
                 then (showExternalChanges env changes,
                       (log ''info'' ''found external changes'' w1)
                         \<lparr>shown := shown w1 @ [changes]\<rparr>)
                 else (Inr (Some []), w1))
          in case r of
               Inl e \<Rightarrow> (Inl e, lastDeployment, w2)
             | Inr fileActions \<Rightarrow>
                apply_each env state profileId stagingPath modPaths fileActions
                  (map fst lastDeployment) lastDeployment [] w2))"

section \<open>A concrete environment\<close>

text \<open>
  An in-memory file system for the concrete instances below: the list of the paths that
  exist. Removing a path always succeeds; moving fails with \<open>ENOENT\<close> when the origin
  does not exist. The deployment method reports a manifest row whose target file is
  gone, and the dialog answers every reported change with \<open>drop\<close>.
\<close>

fun demo_join :: "string list \<Rightarrow> string" where
  "demo_join [] = []"
| "demo_join [x] = x"
| "demo_join (x # y # ys) = x @ ''/'' @ demo_join (y # ys)"

definition demo_remove :: "string \<Rightarrow> string list \<Rightarrow> error option \<times> string list" where
  "demo_remove p f = (None, removeAll p f)"

definition demo_move :: "string \<Rightarrow> string \<Rightarrow> string list \<Rightarrow> error option \<times> string list" where
  "demo_move src dst f =
     (if src \<in> set f then (None, dst # removeAll src (removeAll dst f))
      else (Some (FsError ''ENOENT'' src), f))"

definition demo_changes ::
  "string \<Rightarrow> string \<Rightarrow> string option \<Rightarrow> IDeployedFile list \<Rightarrow> string list
     \<Rightarrow> error + IFileChange list" where
  "demo_changes g staging target deployed f =
     Inr (map (\<lambda>e. IFileChange (relPath e) (IDeployedFile.source e) ''deleted'')
            (filter (\<lambda>e. demo_join [case target of None \<Rightarrow> [] | Some t \<Rightarrow> t, relPath e] \<notin> set f)
               deployed))"

fun demo_decision :: "string \<Rightarrow> IFileChange \<Rightarrow> IFileEntry" where
  "demo_decision typeId (IFileChange p s t) =
     \<lparr>filePath = Some p, source = s, action = Drop, modTypeId = typeId,
      sourceModified = 0, destModified = 0\<rparr>"

definition demo_dialog :: "IFileChange list obj \<Rightarrow> error + IFileEntry list option" where
  "demo_dialog changes =
     Inr (Some (concat (map (\<lambda>(typeId, cs). map (demo_decision typeId) cs) changes)))"

definition demo_env :: "string list env" where
  "demo_env =
     \<lparr>path_join = demo_join, removeAsync = demo_remove, moveAsync = demo_move,
      externalChanges = demo_changes, showExternalChanges = demo_dialog\<rparr>"

definition demo_world :: "string list \<Rightarrow> string list world" where
  "demo_world f = \<lparr>fs = f, ops = [], logs = [], events = [], queries = [], shown = []\<rparr>"

definition demo_state :: State where
  "demo_state =
     \<lparr>profiles = [''p1'' \<mapsto> \<lparr>id' = ''p1'', gameId = ''skyrim''\<rparr>],
      activeProfile = Some \<lparr>id' = ''p1'', gameId = ''skyrim''\<rparr>,
      activeGameId = Some ''skyrim''\<rparr>"

definition deployed_file :: "string \<Rightarrow> string \<Rightarrow> IDeployedFile" where
  "deployed_file p m = \<lparr>relPath = p, IDeployedFile.source = m, time = 0\<rparr>"

definition decision :: "FileAction \<Rightarrow> string \<Rightarrow> string \<Rightarrow> IFileEntry" where
  "decision a p m =
     \<lparr>filePath = Some p, source = m, action = a, modTypeId = [],
      sourceModified = 0, destModified = 0\<rparr>"

text \<open>
  Concrete inputs: a manifest of three files, one decision for each of them, and a file
  system in which the target of \<open>a.txt\<close> is gone and \<open>b.txt\<close> exists on both sides.
\<close>

definition demo_manifest :: "IDeployedFile list" where
  "demo_manifest =
     [deployed_file ''a.txt'' ''ModA'', deployed_file ''b.txt'' ''ModB'',
      deployed_file ''c.txt'' ''ModC'']"

definition demo_decisions :: "IFileEntry list" where
  "demo_decisions =
     [decision Restore ''a.txt'' ''ModA'', decision Import ''b.txt'' ''ModB'',
      decision Nop ''c.txt'' ''ModC'']"

definition demo_files :: "string list" where
  "demo_files = [''game/b.txt'', ''stage/ModB/b.txt'', ''game/c.txt'']"

section \<open>The specification's wording\<close>

text \<open>
  A manifest row is invalidated by a decision on its path whose action is restore, drop,
  delete or import; a \<open>newest\<close> decision counts as the drop or import it resolves to, so
  it invalidates the row whichever of the two it is.
\<close>

definition invalidated :: "IFileEntry list \<Rightarrow> string \<Rightarrow> bool" where
  "invalidated fileActions p =
     (\<exists>d \<in> set fileActions.
        filePath d = Some p \<and> action d \<in> {Restore, Drop, Delete, Import, Newest})"

text \<open>
  A \<open>newest\<close> decision read as the specification resolves it: drop when the source was
  modified strictly later than the destination, import otherwise.
\<close>

definition newest_resolved :: "IFileEntry \<Rightarrow> IFileEntry" where
  "newest_resolved d =
     (if action d = Newest
      then d\<lparr>action := (if sourceModified d > destModified d then Drop else Import)\<rparr>
      else d)"

section \<open>Grouping, affected mods and frame properties\<close>


lemma group_push_action:
  "group (push_action g v) a = group g a @ (if resolveAction v = a then [v] else [])"
  by (cases "g (resolveAction v)") (auto simp: push_action_def setdefault_def group_def)

lemma foldl_groups:
  "group (foldl push_action g fa) a = group g a @ filter (\<lambda>v. resolveAction v = a) fa"
  by (induction fa arbitrary: g) (simp_all add: group_push_action)

lemma group_actionGroups:
  "group (actionGroups fa) a = filter (\<lambda>v. resolveAction v = a) fa"
  by (simp add: actionGroups_def foldl_groups) (simp add: group_def)

lemma distinct_add_affected: "distinct s \<Longrightarrow> distinct (add_affected s a)"
  by (simp add: add_affected_def set_add_def)

lemma set_add_affected:
  "set (add_affected s a) =
     set s \<union> (if action a \<in> {Import, Newest, Nop, Delete, Drop} then {source a} else {})"
  by (auto simp: add_affected_def set_add_def)

lemma distinct_foldl_affected: "distinct s \<Longrightarrow> distinct (foldl add_affected s fa)"
  by (induction fa arbitrary: s) (simp_all add: distinct_add_affected)

lemma image_Cons_collect:
  "{f a |a. a \<in> set (v # vs) \<and> P a} = (if P v then {f v} else {}) \<union> {f a |a. a \<in> set vs \<and> P a}"
  by auto

lemma set_foldl_affected:
  "set (foldl add_affected s fa) =
     set s \<union> {source a |a. a \<in> set fa \<and> action a \<in> {Import, Newest, Nop, Delete, Drop}}"
proof (induction fa arbitrary: s)
  case Nil
  show ?case by simp
next
  case (Cons v vs)
  show ?case
    by (simp only: foldl_Cons Cons.IH set_add_affected Un_assoc image_Cons_collect)
qed

lemma snd_run_all_Cons: "snd (run_all (t # ts) w) = snd (run_all ts (snd (t w)))"
  by (simp split: prod.splits option.splits)

lemma snd_promise_map: "snd (promise_map f xs w) = snd (run_all (fst (start_all f xs)) w)"
  by (simp add: promise_map_def split: prod.splits option.splits)

lemma fst_promise_map:
  "fst (promise_map f xs w) =
     (case snd (start_all f xs) of
        Some e \<Rightarrow> Some e
      | None \<Rightarrow> fst (run_all (fst (start_all f xs)) w))"
  by (simp add: promise_map_def split: prod.splits option.splits)

lemma run_all_rel:
  assumes refl: "\<And>w. R w w" and trans: "\<And>a b c. R a b \<Longrightarrow> R b c \<Longrightarrow> R a c"
    and each: "\<And>t w. t \<in> set ts \<Longrightarrow> R w (snd (t w))"
  shows "R w (snd (run_all ts w))"
  using each
proof (induction ts arbitrary: w)
  case Nil
  show ?case by (simp add: refl)
next
  case (Cons t ts)
  have 1: "R w (snd (t w))" using Cons.prems[of t] by simp
  have 2: "R (snd (t w)) (snd (run_all ts (snd (t w))))"
    using Cons.IH Cons.prems by simp
  show ?case unfolding snd_run_all_Cons using trans[OF 1 2] .
qed

lemma start_all_set:
  "t \<in> set (fst (start_all f xs)) \<Longrightarrow> \<exists>x \<in> set xs. f x = Inr t"
proof (induction xs)
  case Nil
  then show ?case by simp
next
  case (Cons x xs)
  show ?case
  proof (cases "f x")
    case (Inl e)
    then show ?thesis using Cons.prems by simp
  next
    case (Inr t')
    then show ?thesis using Cons by (auto split: prod.splits)
  qed
qed

lemma promise_map_rel:
  assumes refl: "\<And>w. R w w" and trans: "\<And>a b c. R a b \<Longrightarrow> R b c \<Longrightarrow> R a c"
    and each: "\<And>x t w. x \<in> set xs \<Longrightarrow> f x = Inr t \<Longrightarrow> R w (snd (t w))"
  shows "R w (snd (promise_map f xs w))"
proof -
  have k: "R w (snd (t w))" if "t \<in> set (fst (start_all f xs))" for t w
  proof -
    from that have "\<exists>x \<in> set xs. f x = Inr t" by (rule start_all_set)
    then obtain x where "x \<in> set xs" "f x = Inr t" by blast
    then show ?thesis by (rule each)
  qed
  have "R w (snd (run_all (fst (start_all f xs)) w))"
    by (rule run_all_rel) (fact refl, erule (1) trans, erule k)
  then show ?thesis by (simp only: snd_promise_map)
qed

lemma promise_map_events:
  assumes "\<And>x t w. x \<in> set xs \<Longrightarrow> f x = Inr t \<Longrightarrow> events (snd (t w)) = events w"
  shows "events (snd (promise_map f xs w)) = events w"
  by (rule promise_map_rel[where R = "\<lambda>a b. events b = events a"]) (simp_all add: assms)

lemma fs_remove_events: "events (snd (fs_remove env p w)) = events w"
  by (simp add: fs_remove_def split: prod.splits)

lemma fs_move_events: "events (snd (fs_move env a b w)) = events w"
  by (simp add: fs_move_def split: prod.splits)

lemma import_task_events: "events (snd (import_task env src dep w)) = events w"
proof -
  obtain r w1 where 1: "fs_remove env src w = (r, w1)" by (cases "fs_remove env src w")
  have e1: "events w1 = events w" using fs_remove_events[of env src w] 1 by simp
  obtain r' w2 where 2: "fs_move env dep src w1 = (r', w2)" by (cases "fs_move env dep src w1")
  have e2: "events w2 = events w1" using fs_move_events[of env dep src w1] 2 by simp
  show ?thesis
    by (cases r; cases r') (simp_all add: import_task_def 1 2 e1 e2 log_def)
qed

lemma drop_entry_events:
  "drop_entry env out x = Inr t \<Longrightarrow> events (snd (t w)) = events w"
  by (auto simp: drop_entry_def fs_remove_events split: if_splits sum.splits)

lemma delete_entry_events:
  "delete_entry env sp x = Inr t \<Longrightarrow> events (snd (t w)) = events w"
  by (auto simp: delete_entry_def fs_remove_events split: if_splits sum.splits)

lemma import_entry_events:
  "import_entry env sp out x = Inr t \<Longrightarrow> events (snd (t w)) = events w"
  by (auto simp: import_entry_def import_task_events split: sum.splits)

lemma applyFileActions_Some_cases:
  obtains (c_drop) e where
      "fst (promise_map (drop_entry env out) (group (actionGroups fa) Drop) w) = Some e"
      and "applyFileActions env st pid sp out ld (Some fa) w =
         (Inl e, snd (promise_map (drop_entry env out) (group (actionGroups fa) Drop) w))"
  | (c_delete) w1 e where
      "promise_map (drop_entry env out) (group (actionGroups fa) Drop) w = (None, w1)"
      and "fst (promise_map (delete_entry env sp) (group (actionGroups fa) Delete) w1) = Some e"
      and "applyFileActions env st pid sp out ld (Some fa) w =
         (Inl e, snd (promise_map (delete_entry env sp) (group (actionGroups fa) Delete) w1))"
  | (c_import) w1 w2 e where
      "promise_map (drop_entry env out) (group (actionGroups fa) Drop) w = (None, w1)"
      and "promise_map (delete_entry env sp) (group (actionGroups fa) Delete) w1 = (None, w2)"
      and "fst (promise_map (import_entry env sp out) (group (actionGroups fa) Import) w2) = Some e"
      and "applyFileActions env st pid sp out ld (Some fa) w =
         (Inl e, snd (promise_map (import_entry env sp out) (group (actionGroups fa) Import) w2))"
  | (c_done) w1 w2 w3 where
      "promise_map (drop_entry env out) (group (actionGroups fa) Drop) w = (None, w1)"
      and "promise_map (delete_entry env sp) (group (actionGroups fa) Delete) w1 = (None, w2)"
      and "promise_map (import_entry env sp out) (group (actionGroups fa) Import) w2 = (None, w3)"
      and "applyFileActions env st pid sp out ld (Some fa) w =
         (Inr (newDeployment (actionGroups fa) ld),
          emit_all (eventGameId st pid) (affectedMods fa) w3)"
proof -
  obtain r1 w1 where 1: "promise_map (drop_entry env out) (group (actionGroups fa) Drop) w = (r1, w1)"
    by (cases "promise_map (drop_entry env out) (group (actionGroups fa) Drop) w")
  obtain r2 w2 where 2: "promise_map (delete_entry env sp) (group (actionGroups fa) Delete) w1 = (r2, w2)"
    by (cases "promise_map (delete_entry env sp) (group (actionGroups fa) Delete) w1")
  obtain r3 w3 where 3: "promise_map (import_entry env sp out) (group (actionGroups fa) Import) w2 = (r3, w3)"
    by (cases "promise_map (import_entry env sp out) (group (actionGroups fa) Import) w2")
  show thesis
  proof (cases r1)
    case (Some e)
    then show ?thesis using 1 by (intro c_drop[of e]) (simp_all add: applyFileActions_def)
  next
    case n1: None
    show ?thesis
    proof (cases r2)
      case (Some e)
      then show ?thesis using 1 2 n1
        by (intro c_delete[of w1 e]) (simp_all add: applyFileActions_def)
    next
      case n2: None
      show ?thesis
      proof (cases r3)
        case (Some e)
        then show ?thesis using 1 2 3 n1 n2
          by (intro c_import[of w1 w2 e]) (simp_all add: applyFileActions_def)
      next
        case None
        then show ?thesis using 1 2 3 n1 n2
          by (intro c_done[of w1 w2 w3]) (simp_all add: applyFileActions_def)
      qed
    qed
  qed
qed

lemma applyFileActions_resolved:
  assumes "applyFileActions env st pid sp out ld (Some fa) w = (Inr m, w')"
  shows "m = newDeployment (actionGroups fa) ld"
    and "events w' = events w @ map (\<lambda>affected. (eventGameId st pid, affected)) (affectedMods fa)"
proof -
  consider (c_drop) e where
      "applyFileActions env st pid sp out ld (Some fa) w =
         (Inl e, snd (promise_map (drop_entry env out) (group (actionGroups fa) Drop) w))"
  | (c_delete) w1 e where
      "applyFileActions env st pid sp out ld (Some fa) w =
         (Inl e, snd (promise_map (delete_entry env sp) (group (actionGroups fa) Delete) w1))"
  | (c_import) w2 e where
      "applyFileActions env st pid sp out ld (Some fa) w =
         (Inl e, snd (promise_map (import_entry env sp out) (group (actionGroups fa) Import) w2))"
  | (c_done) w1 w2 w3 where
      "promise_map (drop_entry env out) (group (actionGroups fa) Drop) w = (None, w1)"
      and "promise_map (delete_entry env sp) (group (actionGroups fa) Delete) w1 = (None, w2)"
      and "promise_map (import_entry env sp out) (group (actionGroups fa) Import) w2 = (None, w3)"
      and "applyFileActions env st pid sp out ld (Some fa) w =
         (Inr (newDeployment (actionGroups fa) ld),
          emit_all (eventGameId st pid) (affectedMods fa) w3)"
    by (rule applyFileActions_Some_cases[of env out fa w st pid sp ld]) blast+
  then have "m = newDeployment (actionGroups fa) ld \<and>
      events w' = events w @ map (\<lambda>affected. (eventGameId st pid, affected)) (affectedMods fa)"
  proof cases
    case c_drop
    then show ?thesis using assms by simp
  next
    case c_delete
    then show ?thesis using assms by simp
  next
    case c_import
    then show ?thesis using assms by simp
  next
    case (c_done w1 w2 w3)
    have "events w1 = events w"
      using promise_map_events[of "group (actionGroups fa) Drop" "drop_entry env out" w]
        drop_entry_events c_done(1) by (metis snd_conv)
    moreover have "events w2 = events w1"
      using promise_map_events[of "group (actionGroups fa) Delete" "delete_entry env sp" w1]
        delete_entry_events c_done(2) by (metis snd_conv)
    moreover have "events w3 = events w2"
      using promise_map_events[of "group (actionGroups fa) Import" "import_entry env sp out" w2]
        import_entry_events c_done(3) by (metis snd_conv)
    ultimately show ?thesis using assms c_done(4) by (auto simp: emit_all_def)
  qed
  then show "m = newDeployment (actionGroups fa) ld"
    and "events w' = events w @ map (\<lambda>affected. (eventGameId st pid, affected)) (affectedMods fa)"
    by simp_all
qed

lemma resolveAction_cases:
  "resolveAction d \<in> {Restore, Drop, Delete, Import} \<longleftrightarrow>
     action d \<in> {Restore, Drop, Delete, Import, Newest}"
  by (cases "action d") (simp_all add: resolveAction_def)

lemma set_dropSet:
  "set (dropSet (actionGroups fa)) =
     filePath ` {d \<in> set fa. resolveAction d \<in> {Restore, Drop, Delete, Import}}"
  by (auto simp: dropSet_def group_actionGroups)

lemma newDeployment_spec:
  "newDeployment (actionGroups fa) ld = filter (\<lambda>entry. \<not> invalidated fa (relPath entry)) ld"
proof -
  have "Some p \<in> set (dropSet (actionGroups fa)) \<longleftrightarrow> invalidated fa p" for p
    unfolding set_dropSet invalidated_def resolveAction_cases[symmetric] by force
  then show ?thesis by (simp add: newDeployment_def)
qed

section \<open>Resolution of \<open>newest\<close> decisions\<close>

lemma resolveAction_newest_resolved [simp]: "resolveAction (newest_resolved d) = resolveAction d"
  by (cases "action d") (simp_all add: resolveAction_def newest_resolved_def)

lemma filePath_newest_resolved [simp]: "filePath (newest_resolved d) = filePath d"
  by (simp add: newest_resolved_def)

lemma source_newest_resolved [simp]: "source (newest_resolved d) = source d"
  by (simp add: newest_resolved_def)

lemma group_newest_resolved:
  "group (actionGroups (map newest_resolved fa)) a = map newest_resolved (group (actionGroups fa) a)"
  by (simp add: group_actionGroups filter_map comp_def)

lemma start_all_map: "start_all f (map g xs) = start_all (\<lambda>x. f (g x)) xs"
  by (induction xs) (simp_all split: sum.splits)

lemma promise_map_map: "promise_map f (map g xs) w = promise_map (\<lambda>x. f (g x)) xs w"
  by (simp add: promise_map_def start_all_map)

lemma drop_entry_newest_resolved:
  "drop_entry env out (newest_resolved d) = drop_entry env out d"
  by (simp add: drop_entry_def)

lemma delete_entry_newest_resolved:
  "delete_entry env sp (newest_resolved d) = delete_entry env sp d"
  by (simp add: delete_entry_def)

lemma import_entry_newest_resolved:
  "import_entry env sp out (newest_resolved d) = import_entry env sp out d"
  by (simp add: import_entry_def split: sum.splits)

lemma add_affected_newest_resolved:
  "add_affected s (newest_resolved d) = add_affected s d"
  by (cases "action d") (simp_all add: add_affected_def newest_resolved_def)

lemma affectedMods_newest_resolved:
  "foldl add_affected s (map newest_resolved fa) = foldl add_affected s fa"
  by (induction fa arbitrary: s) (simp_all add: add_affected_newest_resolved)

lemma dropSet_newest_resolved:
  "dropSet (actionGroups (map newest_resolved fa)) = dropSet (actionGroups fa)"
  by (simp add: dropSet_def group_newest_resolved comp_def)

lemma applyFileActions_newest_resolved:
  "applyFileActions env st pid sp out ld (Some (map newest_resolved fa)) w =
   applyFileActions env st pid sp out ld (Some fa) w"
  by (simp add: applyFileActions_def group_newest_resolved promise_map_map
      drop_entry_newest_resolved delete_entry_newest_resolved import_entry_newest_resolved
      newDeployment_def dropSet_newest_resolved affectedMods_def affectedMods_newest_resolved
      Let_def split: prod.splits option.splits)

section \<open>Passes without decisions\<close>

lemma applyFileActions_None: "applyFileActions env st pid sp out ld None w = (Inr ld, w)"
  by (simp add: applyFileActions_def)

lemma applyFileActions_Nil: "applyFileActions env st pid sp out ld (Some []) w = (Inr ld, w)"
  by (simp add: applyFileActions_def actionGroups_def group_def promise_map_def newDeployment_def
      dropSet_def affectedMods_def emit_all_def)

section \<open>Rejections of a step\<close>

lemma start_all_Cons_Inr:
  "f y = Inr t \<Longrightarrow> start_all f (y # ys) = (t # fst (start_all f ys), snd (start_all f ys))"
  by (simp split: prod.splits)

lemma start_all_sync_ex:
  "x \<in> set xs \<Longrightarrow> f x = Inl e \<Longrightarrow> \<exists>e'. snd (start_all f xs) = Some e'"
proof (induction xs)
  case Nil
  then show ?case by simp
next
  case (Cons y ys)
  show ?case
  proof (cases "f y")
    case (Inl e0)
    then show ?thesis by simp
  next
    case (Inr t)
    then have "x \<in> set ys" using Cons.prems by auto
    from Cons.IH[OF this Cons.prems(2)] show ?thesis
      by (simp only: start_all_Cons_Inr[of f y t ys, OF Inr] snd_conv)
  qed
qed

lemma start_all_sync_mem:
  "snd (start_all f xs) = Some e \<Longrightarrow> \<exists>x \<in> set xs. f x = Inl e"
proof (induction xs)
  case Nil
  then show ?case by simp
next
  case (Cons y ys)
  show ?case
  proof (cases "f y")
    case (Inl e0)
    then show ?thesis using Cons.prems by simp
  next
    case (Inr t)
    then have "snd (start_all f ys) = Some e"
      using Cons.prems by (simp only: start_all_Cons_Inr[of f y t ys, OF Inr] snd_conv)
    from Cons.IH[OF this] show ?thesis by auto
  qed
qed

lemma run_all_error:
  "fst (run_all ts w) = Some e \<Longrightarrow> \<exists>t \<in> set ts. \<exists>w0. fst (t w0) = Some e"
proof (induction ts arbitrary: w)
  case Nil
  then show ?case by simp
next
  case (Cons t ts)
  obtain r w1 where t: "t w = (r, w1)" by (cases "t w")
  show ?case
  proof (cases r)
    case None
    then have "fst (run_all ts w1) = Some e" using Cons.prems t by (simp split: prod.splits)
    from Cons.IH[OF this] show ?thesis by auto
  next
    case (Some e0)
    then have "e0 = e" using Cons.prems t by (simp split: prod.splits)
    then have "fst (t w) = Some e" using t Some by simp
    then show ?thesis by auto
  qed
qed

lemma promise_map_error_cases:
  assumes "fst (promise_map f xs w) = Some e"
  shows "(\<exists>x \<in> set xs. f x = Inl e) \<or> (\<exists>x \<in> set xs. \<exists>t w0. f x = Inr t \<and> fst (t w0) = Some e)"
proof (cases "snd (start_all f xs)")
  case (Some e0)
  then have "e0 = e" using assms by (simp add: fst_promise_map)
  then show ?thesis using start_all_sync_mem[of f xs e] Some by simp
next
  case None
  then have "fst (run_all (fst (start_all f xs)) w) = Some e"
    using assms by (simp add: fst_promise_map)
  then obtain t w0 where t: "t \<in> set (fst (start_all f xs))" "fst (t w0) = Some e"
    using run_all_error by blast
  from start_all_set[OF t(1)] obtain x where "x \<in> set xs" "f x = Inr t" by blast
  then show ?thesis using t(2) by blast
qed

lemma promise_map_rejects:
  assumes "x \<in> set xs" and "f x = Inl e"
  shows "\<exists>e'. fst (promise_map f xs w) = Some e'"
  using start_all_sync_ex[of x xs f e, OF assms] by (auto simp: fst_promise_map)

lemma fs_remove_ops: "ops (snd (fs_remove env p w)) = ops w @ [Remove p]"
  by (simp add: fs_remove_def split: prod.splits)

lemma promise_map_removes:
  assumes "\<And>x t. x \<in> set xs \<Longrightarrow> f x = Inr t \<Longrightarrow> \<exists>p. t = fs_remove env p"
  shows "\<exists>ps. ops (snd (promise_map f xs w)) = ops w @ map Remove ps"
  apply (rule promise_map_rel[where R = "\<lambda>a b. \<exists>ps. ops b = ops a @ map Remove ps"])
  subgoal for w0 by (rule exI[of _ "[]"]) simp
  subgoal for a b c
  proof -
    assume "\<exists>ps. ops b = ops a @ map Remove ps" "\<exists>ps. ops c = ops b @ map Remove ps"
    then obtain ps qs where "ops b = ops a @ map Remove ps" "ops c = ops b @ map Remove qs"
      by blast
    then have "ops c = ops a @ map Remove (ps @ qs)" by simp
    then show ?thesis ..
  qed
  subgoal for x t w0
  proof -
    assume "x \<in> set xs" "f x = Inr t"
    then obtain p where "t = fs_remove env p" using assms by blast
    then have "ops (snd (t w0)) = ops w0 @ map Remove [p]" by (simp add: fs_remove_ops)
    then show ?thesis ..
  qed
  done

lemma drop_entry_task: "drop_entry env out x = Inr t \<Longrightarrow> \<exists>p. t = fs_remove env p"
  by (auto simp: drop_entry_def split: if_splits sum.splits)

lemma delete_entry_task: "delete_entry env sp x = Inr t \<Longrightarrow> \<exists>p. t = fs_remove env p"
  by (auto simp: delete_entry_def split: if_splits sum.splits)

lemma drop_entry_invalid:
  "\<not> truthy (filePath d) \<Longrightarrow> drop_entry env out d = Inl (Error ''invalid file path'')"
  by (simp add: drop_entry_def)

lemma delete_entry_invalid:
  "\<not> truthy (filePath d) \<Longrightarrow> delete_entry env sp d = Inl (Error ''invalid file path'')"
  by (simp add: delete_entry_def)

lemma drop_entry_sync_error:
  "drop_entry env (Some out) x = Inl e \<Longrightarrow> e = Error ''invalid file path''"
  by (cases "filePath x") (auto simp: drop_entry_def js_path_join_def truthy_def split: if_splits)

lemma delete_entry_sync_error:
  "delete_entry env sp x = Inl e \<Longrightarrow> e = Error ''invalid file path''"
  by (cases "filePath x") (auto simp: delete_entry_def js_path_join_def truthy_def split: if_splits)

lemma fs_remove_no_error:
  "\<forall>p f. fst (removeAsync env p f) = None \<Longrightarrow> fst (fs_remove env p w) = None"
  by (simp add: fs_remove_def split: prod.splits) (metis fst_conv)

lemma drop_step_error:
  assumes "fst (promise_map (drop_entry env (Some out)) xs w) = Some e"
    and "\<forall>p f. fst (removeAsync env p f) = None"
  shows "e = Error ''invalid file path''"
  using promise_map_error_cases[OF assms(1)]
proof
  assume "\<exists>x \<in> set xs. drop_entry env (Some out) x = Inl e"
  then show ?thesis using drop_entry_sync_error by blast
next
  assume "\<exists>x \<in> set xs. \<exists>t w0. drop_entry env (Some out) x = Inr t \<and> fst (t w0) = Some e"
  then obtain x t w0 where "drop_entry env (Some out) x = Inr t" "fst (t w0) = Some e" by blast
  then show ?thesis using drop_entry_task fs_remove_no_error[OF assms(2)] by fastforce
qed

lemma delete_step_error:
  assumes "fst (promise_map (delete_entry env sp) xs w) = Some e"
    and "\<forall>p f. fst (removeAsync env p f) = None"
  shows "e = Error ''invalid file path''"
  using promise_map_error_cases[OF assms(1)]
proof
  assume "\<exists>x \<in> set xs. delete_entry env sp x = Inl e"
  then show ?thesis using delete_entry_sync_error by blast
next
  assume "\<exists>x \<in> set xs. \<exists>t w0. delete_entry env sp x = Inr t \<and> fst (t w0) = Some e"
  then obtain x t w0 where "delete_entry env sp x = Inr t" "fst (t w0) = Some e" by blast
  then show ?thesis using delete_entry_task fs_remove_no_error[OF assms(2)] by fastforce
qed

lemma drop_step_frame:
  "events (snd (promise_map (drop_entry env out) xs w)) = events w \<and>
   (\<exists>ps. ops (snd (promise_map (drop_entry env out) xs w)) = ops w @ map Remove ps)"
  using promise_map_events[of xs "drop_entry env out" w] drop_entry_events
    promise_map_removes[of xs "drop_entry env out" env w] drop_entry_task
  by blast

lemma delete_step_frame:
  "events (snd (promise_map (delete_entry env sp) xs w)) = events w \<and>
   (\<exists>ps. ops (snd (promise_map (delete_entry env sp) xs w)) = ops w @ map Remove ps)"
  using promise_map_events[of xs "delete_entry env sp" w] delete_entry_events
    promise_map_removes[of xs "delete_entry env sp" env w] delete_entry_task
  by blast

section \<open>The import step\<close>

lemma eventGameId_profile:
  "profiles st pid = Some profile \<Longrightarrow> eventGameId st (Some pid) = Some (id' profile)"
  by (simp add: eventGameId_def)

lemma import_entry_Some:
  "filePath d = Some p \<Longrightarrow>
     import_entry env sp (Some out) d =
       Inr (import_task env (path_join env [sp, source d, p]) (path_join env [out, p]))"
  by (simp add: import_entry_def js_path_join_def)

lemma import_task_ops:
  "ops (snd (import_task env src dep w)) =
     ops w @ (if fst (removeAsync env src (fs w)) = None then [Remove src, Move dep src]
              else [Remove src])"
  by (cases "removeAsync env src (fs w)"; cases "fst (removeAsync env src (fs w))";
      cases "moveAsync env dep src (snd (removeAsync env src (fs w)))";
      cases "fst (moveAsync env dep src (snd (removeAsync env src (fs w))))")
    (auto simp: import_task_def fs_remove_def fs_move_def log_def)

lemma import_task_not_ENOENT:
  "fst (import_task env src dep w) = Some e \<Longrightarrow> \<not> is_ENOENT e"
  by (cases "removeAsync env src (fs w)"; cases "fst (removeAsync env src (fs w))";
      cases "moveAsync env dep src (snd (removeAsync env src (fs w)))";
      cases "fst (moveAsync env dep src (snd (removeAsync env src (fs w))))")
    (auto simp: import_task_def fs_remove_def fs_move_def log_def split: if_splits)

lemma import_task_ENOENT:
  assumes "fst (removeAsync env src (fs w)) = Some e \<or>
           fst (removeAsync env src (fs w)) = None \<and>
           fst (moveAsync env dep src (snd (removeAsync env src (fs w)))) = Some e"
    and "is_ENOENT e"
  shows "fst (import_task env src dep w) = None \<and>
         logs (snd (import_task env src dep w)) = logs w @ [(''warn'', ''file disappeared'')]"
  using assms
  by (cases "removeAsync env src (fs w)"; cases "fst (removeAsync env src (fs w))";
      cases "moveAsync env dep src (snd (removeAsync env src (fs w)))";
      cases "fst (moveAsync env dep src (snd (removeAsync env src (fs w))))")
    (auto simp: import_task_def fs_remove_def fs_move_def log_def)

lemma single_import_pass:
  assumes "filePath d = Some p" and "resolveAction d = Import"
    and "fst (import_task env (path_join env [sp, source d, p]) (path_join env [out, p]) w) = None"
  shows "fst (applyFileActions env st pid sp (Some out) ld (Some [d]) w) =
           Inr (filter (\<lambda>entry. relPath entry \<noteq> p) ld)"
proof -
  let ?t = "import_task env (path_join env [sp, source d, p]) (path_join env [out, p])"
  have g: "group (actionGroups [d]) Drop = []" "group (actionGroups [d]) Delete = []"
    "group (actionGroups [d]) Import = [d]" "group (actionGroups [d]) Restore = []"
    using assms(2) by (simp_all add: group_actionGroups)
  obtain r w1 where t: "?t w = (r, w1)" by (cases "?t w")
  then have r: "r = None" using assms(3) by simp
  have pm: "promise_map (import_entry env sp (Some out)) [d] w = (None, w1)"
    by (simp add: promise_map_def import_entry_Some[OF assms(1)] t r)
  have nd: "newDeployment (actionGroups [d]) ld = filter (\<lambda>entry. relPath entry \<noteq> p) ld"
    by (simp add: newDeployment_def dropSet_def g assms(1))
  show ?thesis
    by (simp add: applyFileActions_def g promise_map_def[of _ "[]"] pm nd)
qed

section \<open>Passes that resolve\<close>

lemma import_task_error_origin:
  "fst (import_task env src dep w) = Some e \<Longrightarrow>
     (\<exists>f. fst (removeAsync env src f) = Some e) \<or> (\<exists>f. fst (moveAsync env dep src f) = Some e)"
  by (cases "removeAsync env src (fs w)"; cases "fst (removeAsync env src (fs w))";
      cases "moveAsync env dep src (snd (removeAsync env src (fs w)))";
      cases "fst (moveAsync env dep src (snd (removeAsync env src (fs w))))")
    (auto simp: import_task_def fs_remove_def fs_move_def log_def split: if_splits, (metis fst_conv)+)

lemma import_step_no_error:
  assumes paths: "\<forall>d \<in> set xs. truthy (filePath d)"
    and rm: "\<forall>p f. fst (removeAsync env p f) = None"
    and mv: "\<forall>a b f e. fst (moveAsync env a b f) = Some e \<longrightarrow> is_ENOENT e"
  shows "fst (promise_map (import_entry env sp (Some out)) xs w) = None"
proof (cases "fst (promise_map (import_entry env sp (Some out)) xs w)")
  case None
  then show ?thesis .
next
  case (Some e)
  from promise_map_error_cases[OF Some] show ?thesis
  proof
    assume "\<exists>x \<in> set xs. import_entry env sp (Some out) x = Inl e"
    then obtain x where x: "x \<in> set xs" "import_entry env sp (Some out) x = Inl e" by blast
    then obtain p where "filePath x = Some p"
      using paths by (cases "filePath x") (auto simp: truthy_def)
    from import_entry_Some[OF this, of env sp out] x(2) show ?thesis by simp
  next
    assume "\<exists>x \<in> set xs. \<exists>t w0. import_entry env sp (Some out) x = Inr t \<and> fst (t w0) = Some e"
    then obtain x t w0 where x: "x \<in> set xs" "import_entry env sp (Some out) x = Inr t"
      "fst (t w0) = Some e" by blast
    then obtain p where p: "filePath x = Some p"
      using paths by (cases "filePath x") (auto simp: truthy_def)
    let ?src = "path_join env [sp, source x, p]" and ?dep = "path_join env [out, p]"
    have t: "t = import_task env ?src ?dep" using import_entry_Some[OF p, of env sp out] x(2) by simp
    have e: "fst (import_task env ?src ?dep w0) = Some e" using x(3) t by simp
    from import_task_error_origin[OF e] rm mv have "is_ENOENT e" by auto
    with import_task_not_ENOENT[OF e] show ?thesis by simp
  qed
qed

lemma drop_step_no_error:
  assumes paths: "\<forall>d \<in> set xs. truthy (filePath d)"
    and rm: "\<forall>p f. fst (removeAsync env p f) = None"
  shows "fst (promise_map (drop_entry env (Some out)) xs w) = None"
proof (cases "fst (promise_map (drop_entry env (Some out)) xs w)")
  case None
  then show ?thesis .
next
  case (Some e)
  from promise_map_error_cases[OF Some] show ?thesis
  proof
    assume "\<exists>x \<in> set xs. drop_entry env (Some out) x = Inl e"
    then obtain x where x: "x \<in> set xs" "drop_entry env (Some out) x = Inl e" by blast
    then have "truthy (filePath x)" using paths by blast
    then show ?thesis using x(2)
      by (cases "filePath x") (auto simp: drop_entry_def js_path_join_def truthy_def)
  next
    assume "\<exists>x \<in> set xs. \<exists>t w0. drop_entry env (Some out) x = Inr t \<and> fst (t w0) = Some e"
    then obtain x t w0 where "drop_entry env (Some out) x = Inr t" "fst (t w0) = Some e" by blast
    then show ?thesis using drop_entry_task fs_remove_no_error[OF rm] by fastforce
  qed
qed

lemma delete_step_no_error:
  assumes paths: "\<forall>d \<in> set xs. truthy (filePath d)"
    and rm: "\<forall>p f. fst (removeAsync env p f) = None"
  shows "fst (promise_map (delete_entry env sp) xs w) = None"
proof (cases "fst (promise_map (delete_entry env sp) xs w)")
  case None
  then show ?thesis .
next
  case (Some e)
  from promise_map_error_cases[OF Some] show ?thesis
  proof
    assume "\<exists>x \<in> set xs. delete_entry env sp x = Inl e"
    then obtain x where x: "x \<in> set xs" "delete_entry env sp x = Inl e" by blast
    then have "truthy (filePath x)" using paths by blast
    then show ?thesis using x(2)
      by (cases "filePath x") (auto simp: delete_entry_def js_path_join_def truthy_def)
  next
    assume "\<exists>x \<in> set xs. \<exists>t w0. delete_entry env sp x = Inr t \<and> fst (t w0) = Some e"
    then obtain x t w0 where "delete_entry env sp x = Inr t" "fst (t w0) = Some e" by blast
    then show ?thesis using delete_entry_task fs_remove_no_error[OF rm] by fastforce
  qed
qed

lemma applyFileActions_resolves:
  assumes paths: "\<forall>d \<in> set fa. truthy (filePath d)"
    and rm: "\<forall>p f. fst (removeAsync env p f) = None"
    and mv: "\<forall>a b f e. fst (moveAsync env a b f) = Some e \<longrightarrow> is_ENOENT e"
  shows "\<exists>m. fst (applyFileActions env st pid sp (Some out) ld (Some fa) w) = Inr m"
proof -
  have sub: "\<forall>d \<in> set (group (actionGroups fa) a). truthy (filePath d)" for a
    using paths by (simp add: group_actionGroups)
  note d = drop_step_no_error[OF sub[of Drop] rm, of out]
  note l = delete_step_no_error[OF sub[of Delete] rm, of sp]
  note i = import_step_no_error[OF sub[of Import] rm mv, of sp out]
  show ?thesis
    by (rule applyFileActions_Some_cases[of env "Some out" fa w st pid sp ld])
      (simp_all add: d l i)
qed

section \<open>Detection and the manifests of all mod types\<close>

lemma check_each_frame:
  "check_each env profile sp mps lds keys changes w = (r, w') \<Longrightarrow>
     fs w' = fs w \<and> ops w' = ops w \<and> events w' = events w \<and> shown w' = shown w"
proof (induction keys arbitrary: changes w)
  case Nil
  then show ?case by simp
next
  case (Cons typeId rest)
  show ?case
  proof (cases "map_of lds typeId")
    case None
    then show ?thesis using Cons.prems by simp
  next
    case (Some deployed)
    let ?w1 = "(log ''debug'' ''checking external changes'' w)\<lparr>queries := queries w @ [typeId]\<rparr>"
    have f1: "fs ?w1 = fs w \<and> ops ?w1 = ops w \<and> events ?w1 = events w \<and> shown ?w1 = shown w"
      by (simp add: log_def)
    show ?thesis
    proof (cases "externalChanges env (gameId profile) sp (map_of mps typeId) deployed (fs ?w1)")
      case (Inl e)
      then show ?thesis using Cons.prems Some f1 by (simp add: Let_def)
    next
      case (Inr fileChanges)
      then have "check_each env profile sp mps lds rest
                  (if length fileChanges > 0 then AList.update typeId fileChanges changes
                   else changes) ?w1 = (r, w')"
        using Cons.prems Some by (simp add: Let_def)
      from Cons.IH[OF this] f1 show ?thesis by simp
    qed
  qed
qed

lemma checkForExternalChanges_frame:
  "fs (snd (checkForExternalChanges env st pid sp mps lds w)) = fs w \<and>
   ops (snd (checkForExternalChanges env st pid sp mps lds w)) = ops w \<and>
   events (snd (checkForExternalChanges env st pid sp mps lds w)) = events w \<and>
   shown (snd (checkForExternalChanges env st pid sp mps lds w)) = shown w"
proof (cases "resolveProfile st pid")
  case None
  then show ?thesis by (simp add: checkForExternalChanges_def log_def)
next
  case (Some profile)
  let ?w0 = "log ''debug'' ''determine external changes'' w"
  obtain r w' where c: "check_each env profile sp mps lds (map fst mps) [] ?w0 = (r, w')"
    by (cases "check_each env profile sp mps lds (map fst mps) [] ?w0")
  from check_each_frame[OF c] show ?thesis
    using Some c by (simp add: checkForExternalChanges_def log_def)
qed

lemma apply_each_no_decisions:
  "set keys \<subseteq> fst ` set lds \<Longrightarrow>
     \<exists>res'. apply_each env st pid sp mps (Some []) keys lds res w = (Inr res', lds, w)"
proof (induction keys arbitrary: res)
  case Nil
  show ?case by simp
next
  case (Cons typeId rest)
  from Cons.prems have "typeId \<in> fst ` set lds" by simp
  then obtain deployed where d: "map_of lds typeId = Some deployed"
    by (cases "map_of lds typeId") (simp_all add: map_of_eq_None_iff)
  have u: "AList.update typeId deployed lds = lds" using d by (rule update_triv)
  from Cons.prems have "set rest \<subseteq> fst ` set lds" by simp
  from Cons.IH[OF this, of "res @ [deployed]"] show ?case
    by (simp add: d applyFileActions_Nil u)
qed

lemma check_each_missing:
  "typeId \<in> set keys \<Longrightarrow> map_of lds typeId = None \<Longrightarrow>
     \<exists>e. fst (check_each env profile sp mps lds keys changes w) = Inl e"
proof (induction keys arbitrary: changes w)
  case Nil
  then show ?case by simp
next
  case (Cons k rest)
  show ?case
  proof (cases "map_of lds k")
    case None
    then show ?thesis by simp
  next
    case (Some deployed)
    then have "typeId \<in> set rest" using Cons.prems by auto
    note ih = Cons.IH[OF this Cons.prems(2)]
    show ?thesis
      by (cases "externalChanges env (gameId profile) sp (map_of mps k) deployed
                   (fs ((log ''debug'' ''checking external changes'' w)\<lparr>queries := queries w @ [k]\<rparr>))")
        (simp_all add: Some Let_def ih)
  qed
qed

lemma check_each_missing_TypeError:
  "typeId \<in> set keys \<Longrightarrow> map_of lds typeId = None \<Longrightarrow>
   (\<forall>g s m d f. \<exists>c. externalChanges env g s m d f = Inr c) \<Longrightarrow>
     fst (check_each env profile sp mps lds keys changes w) =
       Inl (TypeError ''Cannot read property length of undefined'')"
proof (induction keys arbitrary: changes w)
  case Nil
  then show ?case by simp
next
  case (Cons k rest)
  show ?case
  proof (cases "map_of lds k")
    case None
    then show ?thesis by simp
  next
    case (Some deployed)
    then have "typeId \<in> set rest" using Cons.prems by auto
    note ih = Cons.IH[OF this Cons.prems(2,3)]
    obtain c where "externalChanges env (gameId profile) sp (map_of mps k) deployed
                   (fs ((log ''debug'' ''checking external changes'' w)\<lparr>queries := queries w @ [k]\<rparr>)) = Inr c"
      using Cons.prems(3) by blast
    then show ?thesis by (simp add: Some Let_def ih)
  qed
qed

lemma applyFileActions_resolved_spec:
  assumes "applyFileActions env st pid sp out ld (Some fa) w = (Inr m, w')"
  shows "m = filter (\<lambda>entry. \<not> invalidated fa (relPath entry)) ld"
  using applyFileActions_resolved(1)[OF assms] by (simp only: newDeployment_spec)

lemma apply_each_resolved:
  "apply_each env st pid sp mps (Some fa) keys lds res w = (Inr res', lds', w') \<Longrightarrow>
   distinct keys \<Longrightarrow>
     map fst lds' = map fst lds \<and>
     (\<forall>k. map_of lds' k =
        (if k \<in> set keys
         then map_option (filter (\<lambda>entry. \<not> invalidated (filter (\<lambda>a. modTypeId a = k) fa)
                 (relPath entry))) (map_of lds k)
         else map_of lds k))"
proof (induction keys arbitrary: lds res w)
  case Nil
  then show ?case by simp
next
  case (Cons typeId rest)
  obtain deployed where d: "map_of lds typeId = Some deployed"
    using Cons.prems(1) by (cases "map_of lds typeId") simp_all
  obtain r w1 where a: "applyFileActions env st pid sp (map_of mps typeId) deployed
       (Some (filter (\<lambda>a. modTypeId a = typeId) fa)) w = (r, w1)"
    by (cases "applyFileActions env st pid sp (map_of mps typeId) deployed
       (Some (filter (\<lambda>a. modTypeId a = typeId) fa)) w")
  obtain new where r: "r = Inr new"
    using Cons.prems(1) d a by (cases r) simp_all
  have new: "new = filter (\<lambda>entry. \<not> invalidated (filter (\<lambda>a. modTypeId a = typeId) fa)
                 (relPath entry)) deployed"
    using a r by (auto dest: applyFileActions_resolved_spec)
  have rec: "apply_each env st pid sp mps (Some fa) rest (AList.update typeId new lds)
      (res @ [new]) w1 = (Inr res', lds', w')"
    using Cons.prems(1) d a r by simp
  have dist: "distinct rest" and notin: "typeId \<notin> set rest" using Cons.prems(2) by simp_all
  note ih = Cons.IH[OF rec dist]
  have keys: "map fst (AList.update typeId new lds) = map fst lds"
    using d by (simp add: update_keys weak_map_of_SomeI domI dom_map_of_conv_image_fst[symmetric])
  have m: "map_of (AList.update typeId new lds) = (map_of lds)(typeId \<mapsto> new)"
    by (rule update_conv')
  show ?case
  proof (intro conjI allI)
    show "map fst lds' = map fst lds" using ih keys by simp
    fix k
    show "map_of lds' k =
        (if k \<in> set (typeId # rest)
         then map_option (filter (\<lambda>entry. \<not> invalidated (filter (\<lambda>a. modTypeId a = k) fa)
                 (relPath entry))) (map_of lds k)
         else map_of lds k)"
    proof (cases "k = typeId")
      case True
      then show ?thesis using ih notin m d new by simp
    next
      case False
      then show ?thesis using ih m by simp
    qed
  qed
qed

section \<open>The file operations of a pass\<close>

lemma promise_map_single: "f x = Inr t \<Longrightarrow> promise_map f [x] w = t w"
  by (cases "t w"; cases "fst (t w)") (auto simp: promise_map_def)

lemma promise_map_Nil: "promise_map f [] w = (None, w)"
  by (simp add: promise_map_def)

lemma drop_entry_Some:
  "filePath d = Some p \<Longrightarrow> p \<noteq> [] \<Longrightarrow>
     drop_entry env (Some out) d = Inr (fs_remove env (path_join env [out, p]))"
  by (simp add: drop_entry_def js_path_join_def truthy_def)

lemma emit_all_frame:
  "ops (emit_all g ms w) = ops w \<and> logs (emit_all g ms w) = logs w \<and> fs (emit_all g ms w) = fs w"
  by (simp add: emit_all_def)

lemma single_drop_pass_ops:
  assumes "filePath d = Some p" and "p \<noteq> []" and "resolveAction d = Drop"
  shows "ops (snd (applyFileActions env st pid sp (Some out) ld (Some [d]) w)) =
           ops w @ [Remove (path_join env [out, p])]"
proof -
  let ?t = "fs_remove env (path_join env [out, p])"
  have g: "group (actionGroups [d]) Drop = [d]" "group (actionGroups [d]) Delete = []"
    "group (actionGroups [d]) Import = []"
    using assms(3) by (simp_all add: group_actionGroups)
  obtain r w1 where t: "?t w = (r, w1)" by (cases "?t w")
  have o: "ops w1 = ops w @ [Remove (path_join env [out, p])]"
    using fs_remove_ops[of env "path_join env [out, p]" w] t by simp
  have pm: "promise_map (drop_entry env (Some out)) [d] w = (r, w1)"
    using promise_map_single[of "drop_entry env (Some out)" d ?t w]
      drop_entry_Some[OF assms(1,2), of env out] t by simp
  show ?thesis
    by (cases r) (simp_all add: applyFileActions_def g pm promise_map_Nil o emit_all_def)
qed

lemma single_import_pass_world:
  assumes "filePath d = Some p" and "resolveAction d = Import"
  shows "ops (snd (applyFileActions env st pid sp (Some out) ld (Some [d]) w)) =
           ops (snd (import_task env (path_join env [sp, source d, p]) (path_join env [out, p]) w)) \<and>
         logs (snd (applyFileActions env st pid sp (Some out) ld (Some [d]) w)) =
           logs (snd (import_task env (path_join env [sp, source d, p]) (path_join env [out, p]) w)) \<and>
         fs (snd (applyFileActions env st pid sp (Some out) ld (Some [d]) w)) =
           fs (snd (import_task env (path_join env [sp, source d, p]) (path_join env [out, p]) w))"
proof -
  let ?t = "import_task env (path_join env [sp, source d, p]) (path_join env [out, p])"
  have g: "group (actionGroups [d]) Drop = []" "group (actionGroups [d]) Delete = []"
    "group (actionGroups [d]) Import = [d]"
    using assms(2) by (simp_all add: group_actionGroups)
  obtain r w1 where t: "?t w = (r, w1)" by (cases "?t w")
  have pm: "promise_map (import_entry env sp (Some out)) [d] w = (r, w1)"
    using promise_map_single[of "import_entry env sp (Some out)" d ?t w]
      import_entry_Some[OF assms(1), of env sp out] t by simp
  show ?thesis
    by (cases r) (simp_all add: applyFileActions_def g pm promise_map_Nil t emit_all_def)
qed

lemma start_all_all_started:
  "\<forall>x \<in> set xs. f x = Inr (g x) \<Longrightarrow> start_all f xs = (map g xs, None)"
  by (induction xs) simp_all

lemma run_all_ops_fixed:
  "\<forall>x \<in> set xs. \<forall>w. ops (snd (g x w)) = ops w @ h x \<Longrightarrow>
     ops (snd (run_all (map g xs) w)) = ops w @ concat (map h xs)"
proof (induction xs arbitrary: w)
  case Nil
  show ?case by simp
next
  case (Cons x xs)
  have 1: "ops (snd (g x w)) = ops w @ h x" using Cons.prems by simp
  have 2: "ops (snd (run_all (map g xs) (snd (g x w)))) = ops (snd (g x w)) @ concat (map h xs)"
    using Cons.IH Cons.prems by simp
  show ?case
    unfolding list.map snd_run_all_Cons 2 1 by simp
qed

lemma promise_map_ops_fixed:
  assumes "\<forall>x \<in> set xs. f x = Inr (g x)"
    and "\<forall>x \<in> set xs. \<forall>w. ops (snd (g x w)) = ops w @ h x"
  shows "ops (snd (promise_map f xs w)) = ops w @ concat (map h xs)"
  by (simp only: snd_promise_map start_all_all_started[OF assms(1)] fst_conv
      run_all_ops_fixed[OF assms(2)])

lemma concat_map_split:
  "d \<in> set xs \<Longrightarrow> \<exists>pre post. concat (map h xs) = pre @ h d @ post"
proof -
  assume "d \<in> set xs"
  then obtain ys zs where "xs = ys @ d # zs" by (auto simp: in_set_conv_decomp)
  then have "concat (map h xs) = concat (map h ys) @ h d @ concat (map h zs)" by simp
  then show ?thesis by blast
qed

lemma promise_map_ops_extend:
  assumes "\<And>x t w. x \<in> set xs \<Longrightarrow> f x = Inr t \<Longrightarrow> \<exists>new. ops (snd (t w)) = ops w @ new"
  shows "\<exists>new. ops (snd (promise_map f xs w)) = ops w @ new"
  apply (rule promise_map_rel[where R = "\<lambda>a b. \<exists>new. ops b = ops a @ new"])
  subgoal for w0 by simp
  subgoal for a b c by (metis append.assoc)
  subgoal for x t w0 using assms by blast
  done

lemma import_entry_ops_extend:
  "import_entry env sp out x = Inr t \<Longrightarrow> \<exists>new. ops (snd (t w)) = ops w @ new"
  by (auto simp: import_entry_def import_task_ops split: sum.splits)

lemma delete_step_ops_extend:
  "\<exists>new. ops (snd (promise_map (delete_entry env sp) xs w)) = ops w @ new"
  using delete_step_frame[of env sp xs w] by blast

lemma import_step_ops_extend:
  "\<exists>new. ops (snd (promise_map (import_entry env sp out) xs w)) = ops w @ new"
  by (rule promise_map_ops_extend) (rule import_entry_ops_extend)

lemma pass_ops_extend_drop_step:
  "\<exists>more. ops (snd (applyFileActions env st pid sp out ld (Some fa) w)) =
      ops (snd (promise_map (drop_entry env out) (group (actionGroups fa) Drop) w)) @ more"
proof (rule applyFileActions_Some_cases[of env out fa w st pid sp ld])
  fix e
  assume "applyFileActions env st pid sp out ld (Some fa) w =
         (Inl e, snd (promise_map (drop_entry env out) (group (actionGroups fa) Drop) w))"
  then show ?thesis by simp
next
  fix w1 e
  assume 1: "promise_map (drop_entry env out) (group (actionGroups fa) Drop) w = (None, w1)"
    and r: "applyFileActions env st pid sp out ld (Some fa) w =
         (Inl e, snd (promise_map (delete_entry env sp) (group (actionGroups fa) Delete) w1))"
  show ?thesis unfolding r 1 using delete_step_ops_extend[of env sp _ w1] by simp
next
  fix w1 w2 e
  assume 1: "promise_map (drop_entry env out) (group (actionGroups fa) Drop) w = (None, w1)"
    and 2: "promise_map (delete_entry env sp) (group (actionGroups fa) Delete) w1 = (None, w2)"
    and r: "applyFileActions env st pid sp out ld (Some fa) w =
         (Inl e, snd (promise_map (import_entry env sp out) (group (actionGroups fa) Import) w2))"
  obtain a where a: "ops w2 = ops w1 @ a"
    using delete_step_ops_extend[of env sp "group (actionGroups fa) Delete" w1] 2 by auto
  obtain b where "ops (snd (promise_map (import_entry env sp out)
      (group (actionGroups fa) Import) w2)) = ops w2 @ b"
    using import_step_ops_extend by blast
  then show ?thesis unfolding r 1 using a by simp
next
  fix w1 w2 w3
  assume 1: "promise_map (drop_entry env out) (group (actionGroups fa) Drop) w = (None, w1)"
    and 2: "promise_map (delete_entry env sp) (group (actionGroups fa) Delete) w1 = (None, w2)"
    and 3: "promise_map (import_entry env sp out) (group (actionGroups fa) Import) w2 = (None, w3)"
    and r: "applyFileActions env st pid sp out ld (Some fa) w =
         (Inr (newDeployment (actionGroups fa) ld),
          emit_all (eventGameId st pid) (affectedMods fa) w3)"
  obtain a where a: "ops w2 = ops w1 @ a"
    using delete_step_ops_extend[of env sp "group (actionGroups fa) Delete" w1] 2 by auto
  obtain b where b: "ops w3 = ops w2 @ b"
    using import_step_ops_extend[of env sp out "group (actionGroups fa) Import" w2] 3 by auto
  show ?thesis unfolding r 1 using a b by (simp add: emit_all_def)
qed

lemma drop_decision_removes_target:
  assumes d: "d \<in> set fa" "resolveAction d = Drop" "filePath d = Some p"
    and paths: "\<forall>x \<in> set fa. resolveAction x = Drop \<longrightarrow> truthy (filePath x)"
  shows "\<exists>pre post. ops (snd (applyFileActions env st pid sp (Some out) ld (Some fa) w)) =
           ops w @ pre @ [Remove (path_join env [out, p])] @ post"
proof -
  let ?xs = "group (actionGroups fa) Drop"
  let ?g = "\<lambda>x. fs_remove env (path_join env [out, the (filePath x)])"
  let ?h = "\<lambda>x. [Remove (path_join env [out, the (filePath x)])]"
  have mem: "d \<in> set ?xs" using d by (simp add: group_actionGroups)
  have started: "\<forall>x \<in> set ?xs. drop_entry env (Some out) x = Inr (?g x)"
  proof
    fix x assume "x \<in> set ?xs"
    then have "truthy (filePath x)" using paths by (simp add: group_actionGroups)
    then obtain q where "filePath x = Some q" "q \<noteq> []"
      by (cases "filePath x") (auto simp: truthy_def)
    then show "drop_entry env (Some out) x = Inr (?g x)"
      using drop_entry_Some[of x q env out] by simp
  qed
  have "\<forall>x \<in> set ?xs. \<forall>w. ops (snd (?g x w)) = ops w @ ?h x"
    by (simp add: fs_remove_ops)
  from promise_map_ops_fixed[OF started this, of w]
  have o: "ops (snd (promise_map (drop_entry env (Some out)) ?xs w)) = ops w @ concat (map ?h ?xs)" .
  obtain pre post where s: "concat (map ?h ?xs) = pre @ ?h d @ post"
    using concat_map_split[OF mem, of ?h] by blast
  obtain more where m: "ops (snd (applyFileActions env st pid sp (Some out) ld (Some fa) w)) =
      ops (snd (promise_map (drop_entry env (Some out)) ?xs w)) @ more"
    using pass_ops_extend_drop_step by blast
  have "ops (snd (applyFileActions env st pid sp (Some out) ld (Some fa) w)) =
      ops w @ pre @ [Remove (path_join env [out, p])] @ (post @ more)"
    unfolding m o s using d(3) by simp
  then show ?thesis by blast
qed

lemma import_decision_removes_then_moves:
  assumes d: "d \<in> set fa" "resolveAction d = Import" "filePath d = Some p"
    and paths: "\<forall>x \<in> set fa. truthy (filePath x)"
    and rm: "\<forall>q f. fst (removeAsync env q f) = None"
  shows "\<exists>pre mid post.
           ops (snd (applyFileActions env st pid sp (Some out) ld (Some fa) w)) =
             ops w @ pre @ [Remove (path_join env [sp, source d, p])] @ mid @
               [Move (path_join env [out, p]) (path_join env [sp, source d, p])] @ post"
proof -
  let ?r = "applyFileActions env st pid sp (Some out) ld (Some fa) w"
  let ?xs = "group (actionGroups fa) Import"
  let ?src = "\<lambda>x. path_join env [sp, source x, the (filePath x)]"
  let ?dep = "\<lambda>x. path_join env [out, the (filePath x)]"
  let ?g = "\<lambda>x. import_task env (?src x) (?dep x)"
  let ?h = "\<lambda>x. [Remove (?src x), Move (?dep x) (?src x)]"
  have sub: "\<forall>x \<in> set (group (actionGroups fa) a). truthy (filePath x)" for a
    using paths by (simp add: group_actionGroups)
  have mem: "d \<in> set ?xs" using d by (simp add: group_actionGroups)
  have started: "\<forall>x \<in> set ?xs. import_entry env sp (Some out) x = Inr (?g x)"
  proof
    fix x assume "x \<in> set ?xs"
    then have "truthy (filePath x)" using sub by blast
    then obtain q where "filePath x = Some q" by (cases "filePath x") (auto simp: truthy_def)
    then show "import_entry env sp (Some out) x = Inr (?g x)"
      using import_entry_Some[of x q env sp out] by simp
  qed
  have "\<forall>x \<in> set ?xs. \<forall>w. ops (snd (?g x w)) = ops w @ ?h x"
    using rm by (simp add: import_task_ops)
  from promise_map_ops_fixed[OF started this]
  have o3: "ops (snd (promise_map (import_entry env sp (Some out)) ?xs w2)) =
      ops w2 @ concat (map ?h ?xs)" for w2 .
  obtain pre post where s: "concat (map ?h ?xs) = pre @ ?h d @ post"
    using concat_map_split[OF mem, of ?h] by blast
  have d1: "fst (promise_map (drop_entry env (Some out)) (group (actionGroups fa) Drop) w0) = None"
    for w0 by (rule drop_step_no_error[OF sub rm])
  have d2: "fst (promise_map (delete_entry env sp) (group (actionGroups fa) Delete) w0) = None"
    for w0 by (rule delete_step_no_error[OF sub rm])
  have "\<exists>a. ops (snd ?r) = ops w @ a @ concat (map ?h ?xs)"
  proof (rule applyFileActions_Some_cases[of env "Some out" fa w st pid sp ld])
    fix e
    assume "fst (promise_map (drop_entry env (Some out)) (group (actionGroups fa) Drop) w) = Some e"
    then show ?thesis using d1[of w] by simp
  next
    fix w1 e
    assume "fst (promise_map (delete_entry env sp) (group (actionGroups fa) Delete) w1) = Some e"
    then show ?thesis using d2[of w1] by simp
  next
    fix w1 w2 e
    assume 1: "promise_map (drop_entry env (Some out)) (group (actionGroups fa) Drop) w = (None, w1)"
      and 2: "promise_map (delete_entry env sp) (group (actionGroups fa) Delete) w1 = (None, w2)"
      and r: "?r = (Inl e, snd (promise_map (import_entry env sp (Some out)) ?xs w2))"
    obtain a where a: "ops w1 = ops w @ a"
      using drop_step_frame[of env "Some out" "group (actionGroups fa) Drop" w] 1 by auto
    obtain b where b: "ops w2 = ops w1 @ b"
      using delete_step_frame[of env sp "group (actionGroups fa) Delete" w1] 2 by auto
    have "ops (snd ?r) = ops w @ (a @ b) @ concat (map ?h ?xs)"
      unfolding r using o3[of w2] a b by simp
    then show ?thesis ..
  next
    fix w1 w2 w3
    assume 1: "promise_map (drop_entry env (Some out)) (group (actionGroups fa) Drop) w = (None, w1)"
      and 2: "promise_map (delete_entry env sp) (group (actionGroups fa) Delete) w1 = (None, w2)"
      and 3: "promise_map (import_entry env sp (Some out)) ?xs w2 = (None, w3)"
      and r: "?r = (Inr (newDeployment (actionGroups fa) ld),
          emit_all (eventGameId st pid) (affectedMods fa) w3)"
    obtain a where a: "ops w1 = ops w @ a"
      using drop_step_frame[of env "Some out" "group (actionGroups fa) Drop" w] 1 by auto
    obtain b where b: "ops w2 = ops w1 @ b"
      using delete_step_frame[of env sp "group (actionGroups fa) Delete" w1] 2 by auto
    have "ops w3 = ops w2 @ concat (map ?h ?xs)" using o3[of w2] 3 by simp
    then have "ops (snd ?r) = ops w @ (a @ b) @ concat (map ?h ?xs)"
      unfolding r using a b by (simp add: emit_all_def)
    then show ?thesis ..
  qed
  then obtain a where "ops (snd ?r) = ops w @ a @ concat (map ?h ?xs)" ..
  then have "ops (snd ?r) = ops w @ (a @ pre) @ [Remove (path_join env [sp, source d, p])] @ [] @
               [Move (path_join env [out, p]) (path_join env [sp, source d, p])] @ post"
    unfolding s using d(3) by simp
  then show ?thesis by blast
qed

lemma single_import_pass_ops:
  assumes "filePath d = Some p" and "resolveAction d = Import"
  shows "ops (snd (applyFileActions env st pid sp (Some out) ld (Some [d]) w)) =
           ops w @ (if fst (removeAsync env (path_join env [sp, source d, p]) (fs w)) = None
                    then [Remove (path_join env [sp, source d, p]),
                          Move (path_join env [out, p]) (path_join env [sp, source d, p])]
                    else [Remove (path_join env [sp, source d, p])])"
  using single_import_pass_world[OF assms, of env st pid sp out ld w]
  by (simp only: import_task_ops)

lemma single_import_pass_ENOENT:
  assumes "filePath d = Some p" and "resolveAction d = Import"
    and "fst (removeAsync env (path_join env [sp, source d, p]) (fs w)) = Some e \<or>
         fst (removeAsync env (path_join env [sp, source d, p]) (fs w)) = None \<and>
         fst (moveAsync env (path_join env [out, p]) (path_join env [sp, source d, p])
               (snd (removeAsync env (path_join env [sp, source d, p]) (fs w)))) = Some e"
    and "is_ENOENT e"
  shows "fst (applyFileActions env st pid sp (Some out) ld (Some [d]) w) =
           Inr (filter (\<lambda>entry. relPath entry \<noteq> p) ld) \<and>
         logs (snd (applyFileActions env st pid sp (Some out) ld (Some [d]) w)) =
           logs w @ [(''warn'', ''file disappeared'')]"
proof -
  note t = import_task_ENOENT[OF assms(3,4)]
  from single_import_pass[OF assms(1,2) conjunct1[OF t], of st pid ld]
    single_import_pass_world[OF assms(1,2), of env st pid sp out ld w] conjunct2[OF t]
  show ?thesis by simp
qed

section \<open>The manifest returned by \<open>applyFileActions\<close>\<close>

text \<open>
  C1. Whenever \<open>applyFileActions\<close> resolves for a decision list, the manifest it returns
  is the prior manifest, in its order, without the rows whose \<open>relPath\<close> is the
  \<open>filePath\<close> of a decision whose action is restore, drop, delete, import or
  \<open>newest\<close> (which resolves to a drop or an import). Rows touched by \<open>nop\<close> decisions
  only are kept.
\<close>

theorem applyFileActions_manifest:
  assumes "fst (applyFileActions env state profileId sourcePath outputPath lastDeployment
             (Some fileActions) w) = Inr m"
  shows "m = filter (\<lambda>entry. \<not> invalidated fileActions (relPath entry)) lastDeployment"
proof -
  have "applyFileActions env state profileId sourcePath outputPath lastDeployment
          (Some fileActions) w =
        (Inr m, snd (applyFileActions env state profileId sourcePath outputPath lastDeployment
          (Some fileActions) w))"
    using assms by (simp add: prod_eq_iff)
  from applyFileActions_resolved(1)[OF this] show ?thesis
    by (simp only: newDeployment_spec)
qed

theorem applyFileActions_manifest_witness:
  "fst (applyFileActions demo_env demo_state (Some ''p1'') ''stage'' (Some ''game'')
     [deployed_file ''a.txt'' ''ModA'', deployed_file ''b.txt'' ''ModB'',
      deployed_file ''c.txt'' ''ModC'', deployed_file ''d.txt'' ''ModD'',
      deployed_file ''e.txt'' ''ModE'']
     (Some [decision Restore ''a.txt'' ''ModA'', decision Import ''b.txt'' ''ModB'',
            decision Nop ''c.txt'' ''ModC'',
            (decision Newest ''d.txt'' ''ModD'')\<lparr>sourceModified := 5\<rparr>,
            decision Newest ''e.txt'' ''ModE''])
     (demo_world [''game/b.txt'', ''stage/ModB/b.txt'', ''game/c.txt'', ''game/d.txt'',
                  ''game/e.txt''])) =
   Inr [deployed_file ''c.txt'' ''ModC''] \<and>
   [deployed_file ''c.txt'' ''ModC''] =
     filter (\<lambda>entry. \<not> invalidated
         [decision Restore ''a.txt'' ''ModA'', decision Import ''b.txt'' ''ModB'',
          decision Nop ''c.txt'' ''ModC'',
          (decision Newest ''d.txt'' ''ModD'')\<lparr>sourceModified := 5\<rparr>,
          decision Newest ''e.txt'' ''ModE''] (relPath entry))
       [deployed_file ''a.txt'' ''ModA'', deployed_file ''b.txt'' ''ModB'',
        deployed_file ''c.txt'' ''ModC'', deployed_file ''d.txt'' ''ModD'',
        deployed_file ''e.txt'' ''ModE'']"
proof -
  have h: "fst (applyFileActions demo_env demo_state (Some ''p1'') ''stage'' (Some ''game'')
     [deployed_file ''a.txt'' ''ModA'', deployed_file ''b.txt'' ''ModB'',
      deployed_file ''c.txt'' ''ModC'', deployed_file ''d.txt'' ''ModD'',
      deployed_file ''e.txt'' ''ModE'']
     (Some [decision Restore ''a.txt'' ''ModA'', decision Import ''b.txt'' ''ModB'',
            decision Nop ''c.txt'' ''ModC'',
            (decision Newest ''d.txt'' ''ModD'')\<lparr>sourceModified := 5\<rparr>,
            decision Newest ''e.txt'' ''ModE''])
     (demo_world [''game/b.txt'', ''stage/ModB/b.txt'', ''game/c.txt'', ''game/d.txt'',
                  ''game/e.txt''])) =
   Inr [deployed_file ''c.txt'' ''ModC'']"
    by code_simp
  show ?thesis
    by (rule conjI[OF h applyFileActions_manifest[OF h]])
qed

section \<open>Resolution of \<open>newest\<close> by modification time\<close>

text \<open>
  C2. The executor handles a decision list exactly as it handles the list in which every
  \<open>newest\<close> decision is replaced by \<open>drop\<close> when the source was modified strictly
  later than the destination and by \<open>import\<close> otherwise, equal times included; a
  \<open>newest\<close> decision is in the drop group in the first case, in the import group in
  the second, and no group is left under \<open>newest\<close>. In effect: a pass of one
  \<open>newest\<close> decision with the later source issues the removal of \<open>outputPath/p\<close> and
  nothing else; with a source that is not later it issues the removal of the staging
  file and, when that succeeded, the move of \<open>outputPath/p\<close> onto it. In a pass of
  several decisions with non-empty paths the same operations are among those issued
  (the move when no removal fails).
\<close>

theorem newest_resolves_by_modification_time:
  "applyFileActions env state profileId sourcePath outputPath lastDeployment (Some fileActions) w =
   applyFileActions env state profileId sourcePath outputPath lastDeployment
     (Some (map newest_resolved fileActions)) w \<and>
   (\<forall>d \<in> set fileActions. action d = Newest \<longrightarrow>
      (d \<in> set (group (actionGroups fileActions) Drop) \<longleftrightarrow> sourceModified d > destModified d) \<and>
      (d \<in> set (group (actionGroups fileActions) Import) \<longleftrightarrow> sourceModified d \<le> destModified d) \<and>
      d \<notin> set (group (actionGroups fileActions) Newest)) \<and>
   (\<forall>d p. action d = Newest \<and> filePath d = Some p \<and> p \<noteq> [] \<and>
          sourceModified d > destModified d \<longrightarrow>
      ops (snd (applyFileActions env state profileId sourcePath (Some out) lastDeployment
                  (Some [d]) w)) =
        ops w @ [Remove (path_join env [out, p])]) \<and>
   (\<forall>d p. action d = Newest \<and> filePath d = Some p \<and> sourceModified d \<le> destModified d \<longrightarrow>
      ops (snd (applyFileActions env state profileId sourcePath (Some out) lastDeployment
                  (Some [d]) w)) =
        ops w @ (if fst (removeAsync env (path_join env [sourcePath, source d, p]) (fs w)) = None
                 then [Remove (path_join env [sourcePath, source d, p]),
                       Move (path_join env [out, p]) (path_join env [sourcePath, source d, p])]
                 else [Remove (path_join env [sourcePath, source d, p])])) \<and>
   (\<forall>d p. d \<in> set fileActions \<and> action d = Newest \<and> filePath d = Some p \<and>
          sourceModified d > destModified d \<and>
          (\<forall>x \<in> set fileActions. truthy (filePath x)) \<longrightarrow>
      (\<exists>pre post.
         ops (snd (applyFileActions env state profileId sourcePath (Some out) lastDeployment
                     (Some fileActions) w)) =
           ops w @ pre @ [Remove (path_join env [out, p])] @ post)) \<and>
   (\<forall>d p. d \<in> set fileActions \<and> action d = Newest \<and> filePath d = Some p \<and>
          sourceModified d \<le> destModified d \<and>
          (\<forall>x \<in> set fileActions. truthy (filePath x)) \<and>
          (\<forall>q f. fst (removeAsync env q f) = None) \<longrightarrow>
      (\<exists>pre mid post.
         ops (snd (applyFileActions env state profileId sourcePath (Some out) lastDeployment
                     (Some fileActions) w)) =
           ops w @ pre @ [Remove (path_join env [sourcePath, source d, p])] @ mid @
             [Move (path_join env [out, p]) (path_join env [sourcePath, source d, p])] @ post))"
proof -
  have rd: "resolveAction d = Drop" if "action d = Newest" "sourceModified d > destModified d"
    for d using that by (simp add: resolveAction_def)
  have ri: "resolveAction d = Import" if "action d = Newest" "sourceModified d \<le> destModified d"
    for d using that by (simp add: resolveAction_def)
  have c1: "applyFileActions env state profileId sourcePath outputPath lastDeployment
      (Some fileActions) w =
    applyFileActions env state profileId sourcePath outputPath lastDeployment
      (Some (map newest_resolved fileActions)) w"
    by (simp add: applyFileActions_newest_resolved)
  have c2: "\<forall>d \<in> set fileActions. action d = Newest \<longrightarrow>
      (d \<in> set (group (actionGroups fileActions) Drop) \<longleftrightarrow> sourceModified d > destModified d) \<and>
      (d \<in> set (group (actionGroups fileActions) Import) \<longleftrightarrow> sourceModified d \<le> destModified d) \<and>
      d \<notin> set (group (actionGroups fileActions) Newest)"
    by (simp add: group_actionGroups resolveAction_def)
  have c3: "\<forall>d p. action d = Newest \<and> filePath d = Some p \<and> p \<noteq> [] \<and>
          sourceModified d > destModified d \<longrightarrow>
      ops (snd (applyFileActions env state profileId sourcePath (Some out) lastDeployment
                  (Some [d]) w)) =
        ops w @ [Remove (path_join env [out, p])]"
    using single_drop_pass_ops rd by blast
  have c4: "\<forall>d p. action d = Newest \<and> filePath d = Some p \<and>
          sourceModified d \<le> destModified d \<longrightarrow>
      ops (snd (applyFileActions env state profileId sourcePath (Some out) lastDeployment
                  (Some [d]) w)) =
        ops w @ (if fst (removeAsync env (path_join env [sourcePath, source d, p]) (fs w)) = None
                 then [Remove (path_join env [sourcePath, source d, p]),
                       Move (path_join env [out, p]) (path_join env [sourcePath, source d, p])]
                 else [Remove (path_join env [sourcePath, source d, p])])"
    using single_import_pass_ops ri by blast
  have c5: "\<forall>d p. d \<in> set fileActions \<and> action d = Newest \<and> filePath d = Some p \<and>
          sourceModified d > destModified d \<and>
          (\<forall>x \<in> set fileActions. truthy (filePath x)) \<longrightarrow>
      (\<exists>pre post.
         ops (snd (applyFileActions env state profileId sourcePath (Some out) lastDeployment
                     (Some fileActions) w)) =
           ops w @ pre @ [Remove (path_join env [out, p])] @ post)"
  proof (intro allI impI)
    fix d p
    assume a: "d \<in> set fileActions \<and> action d = Newest \<and> filePath d = Some p \<and>
          sourceModified d > destModified d \<and>
          (\<forall>x \<in> set fileActions. truthy (filePath x))"
    then have t: "\<forall>x \<in> set fileActions. resolveAction x = Drop \<longrightarrow> truthy (filePath x)" by blast
    from a have m: "d \<in> set fileActions" and f: "filePath d = Some p"
      and r: "resolveAction d = Drop" using rd[of d] by blast+
    show "\<exists>pre post.
         ops (snd (applyFileActions env state profileId sourcePath (Some out) lastDeployment
                     (Some fileActions) w)) =
           ops w @ pre @ [Remove (path_join env [out, p])] @ post"
      by (rule drop_decision_removes_target[OF m r f t])
  qed
  have c6: "\<forall>d p. d \<in> set fileActions \<and> action d = Newest \<and> filePath d = Some p \<and>
          sourceModified d \<le> destModified d \<and>
          (\<forall>x \<in> set fileActions. truthy (filePath x)) \<and>
          (\<forall>q f. fst (removeAsync env q f) = None) \<longrightarrow>
      (\<exists>pre mid post.
         ops (snd (applyFileActions env state profileId sourcePath (Some out) lastDeployment
                     (Some fileActions) w)) =
           ops w @ pre @ [Remove (path_join env [sourcePath, source d, p])] @ mid @
             [Move (path_join env [out, p]) (path_join env [sourcePath, source d, p])] @ post)"
  proof (intro allI impI)
    fix d p
    assume a: "d \<in> set fileActions \<and> action d = Newest \<and> filePath d = Some p \<and>
          sourceModified d \<le> destModified d \<and>
          (\<forall>x \<in> set fileActions. truthy (filePath x)) \<and>
          (\<forall>q f. fst (removeAsync env q f) = None)"
    then have m: "d \<in> set fileActions" and f: "filePath d = Some p"
      and r: "resolveAction d = Import"
      and t: "\<forall>x \<in> set fileActions. truthy (filePath x)"
      and n: "\<forall>q f. fst (removeAsync env q f) = None" using ri[of d] by blast+
    show "\<exists>pre mid post.
         ops (snd (applyFileActions env state profileId sourcePath (Some out) lastDeployment
                     (Some fileActions) w)) =
           ops w @ pre @ [Remove (path_join env [sourcePath, source d, p])] @ mid @
             [Move (path_join env [out, p]) (path_join env [sourcePath, source d, p])] @ post"
      by (rule import_decision_removes_then_moves[OF m r f t n])
  qed
  show ?thesis by (intro conjI; fact)
qed

theorem newest_resolves_by_modification_time_witness:
  "(decision Newest ''a.txt'' ''ModA'')\<lparr>sourceModified := 5\<rparr>
     \<in> set (group (actionGroups [(decision Newest ''a.txt'' ''ModA'')\<lparr>sourceModified := 5\<rparr>,
                                   decision Newest ''b.txt'' ''ModB'']) Drop) \<and>
   decision Newest ''b.txt'' ''ModB''
     \<in> set (group (actionGroups [(decision Newest ''a.txt'' ''ModA'')\<lparr>sourceModified := 5\<rparr>,
                                   decision Newest ''b.txt'' ''ModB'']) Import) \<and>
   applyFileActions demo_env demo_state (Some ''p1'') ''stage'' (Some ''game'') demo_manifest
     (Some [(decision Newest ''a.txt'' ''ModA'')\<lparr>sourceModified := 5\<rparr>,
            decision Newest ''b.txt'' ''ModB'']) (demo_world demo_files) =
   applyFileActions demo_env demo_state (Some ''p1'') ''stage'' (Some ''game'') demo_manifest
     (Some (map newest_resolved [(decision Newest ''a.txt'' ''ModA'')\<lparr>sourceModified := 5\<rparr>,
            decision Newest ''b.txt'' ''ModB''])) (demo_world demo_files) \<and>
   ops (snd (applyFileActions demo_env demo_state (Some ''p1'') ''stage'' (Some ''game'')
     demo_manifest (Some [(decision Newest ''a.txt'' ''ModA'')\<lparr>sourceModified := 5\<rparr>])
     (demo_world demo_files))) = [Remove ''game/a.txt''] \<and>
   ops (snd (applyFileActions demo_env demo_state (Some ''p1'') ''stage'' (Some ''game'')
     demo_manifest (Some [decision Newest ''b.txt'' ''ModB'']) (demo_world demo_files))) =
     [Remove ''stage/ModB/b.txt'', Move ''game/b.txt'' ''stage/ModB/b.txt''] \<and>
   (\<exists>pre post.
      ops (snd (applyFileActions demo_env demo_state (Some ''p1'') ''stage'' (Some ''game'')
        demo_manifest (Some [(decision Newest ''a.txt'' ''ModA'')\<lparr>sourceModified := 5\<rparr>,
            decision Newest ''b.txt'' ''ModB'']) (demo_world demo_files))) =
        ops (demo_world demo_files) @ pre @ [Remove ''game/a.txt''] @ post) \<and>
   (\<exists>pre mid post.
      ops (snd (applyFileActions demo_env demo_state (Some ''p1'') ''stage'' (Some ''game'')
        demo_manifest (Some [(decision Newest ''a.txt'' ''ModA'')\<lparr>sourceModified := 5\<rparr>,
            decision Newest ''b.txt'' ''ModB'']) (demo_world demo_files))) =
        ops (demo_world demo_files) @ pre @ [Remove ''stage/ModB/b.txt''] @ mid @
          [Move ''game/b.txt'' ''stage/ModB/b.txt''] @ post)"
proof -
  let ?a = "(decision Newest ''a.txt'' ''ModA'')\<lparr>sourceModified := 5\<rparr>"
  let ?b = "decision Newest ''b.txt'' ''ModB''"
  note t = newest_resolves_by_modification_time[where env = demo_env and state = demo_state
      and profileId = "Some ''p1''" and sourcePath = "''stage''" and outputPath = "Some ''game''"
      and lastDeployment = demo_manifest and fileActions = "[?a, ?b]"
      and w = "demo_world demo_files" and out = "''game''"]
  note t1 = t[THEN conjunct1]
  note t2 = t[THEN conjunct2, THEN conjunct1]
  note t3 = t[THEN conjunct2, THEN conjunct2, THEN conjunct1, rule_format, of ?a "''a.txt''"]
  note t4 = t[THEN conjunct2, THEN conjunct2, THEN conjunct2, THEN conjunct1, rule_format,
      of ?b "''b.txt''"]
  note t5 = t[THEN conjunct2, THEN conjunct2, THEN conjunct2, THEN conjunct2, THEN conjunct1,
      rule_format, of ?a "''a.txt''"]
  note t6 = t[THEN conjunct2, THEN conjunct2, THEN conjunct2, THEN conjunct2, THEN conjunct2,
      rule_format, of ?b "''b.txt''"]
  have pa: "action ?a = Newest \<and> filePath ?a = Some ''a.txt'' \<and> ''a.txt'' \<noteq> [] \<and>
      sourceModified ?a > destModified ?a"
    by (simp add: decision_def)
  have pb: "action ?b = Newest \<and> filePath ?b = Some ''b.txt'' \<and>
      sourceModified ?b \<le> destModified ?b"
    by (simp add: decision_def)
  have tr: "\<forall>x \<in> set [?a, ?b]. truthy (filePath x)"
    by (simp add: decision_def truthy_def)
  have rm: "\<forall>q f. fst (removeAsync demo_env q f) = None"
    by (simp add: demo_env_def demo_remove_def)
  have w1: "?a \<in> set (group (actionGroups [?a, ?b]) Drop)"
    and w2: "?b \<in> set (group (actionGroups [?a, ?b]) Import)"
    using t2 by (simp_all add: decision_def)
  have w4: "ops (snd (applyFileActions demo_env demo_state (Some ''p1'') ''stage'' (Some ''game'')
     demo_manifest (Some [?a]) (demo_world demo_files))) = [Remove ''game/a.txt'']"
    using t3[OF pa] by (simp add: demo_env_def demo_world_def)
  have w5: "ops (snd (applyFileActions demo_env demo_state (Some ''p1'') ''stage'' (Some ''game'')
     demo_manifest (Some [?b]) (demo_world demo_files))) =
     [Remove ''stage/ModB/b.txt'', Move ''game/b.txt'' ''stage/ModB/b.txt'']"
    using t4[OF pb] by (simp add: demo_env_def demo_world_def demo_remove_def decision_def)
  have w6: "\<exists>pre post.
      ops (snd (applyFileActions demo_env demo_state (Some ''p1'') ''stage'' (Some ''game'')
        demo_manifest (Some [?a, ?b]) (demo_world demo_files))) =
        ops (demo_world demo_files) @ pre @ [Remove ''game/a.txt''] @ post"
    using t5 pa tr by (simp add: demo_env_def)
  have w7: "\<exists>pre mid post.
      ops (snd (applyFileActions demo_env demo_state (Some ''p1'') ''stage'' (Some ''game'')
        demo_manifest (Some [?a, ?b]) (demo_world demo_files))) =
        ops (demo_world demo_files) @ pre @ [Remove ''stage/ModB/b.txt''] @ mid @
          [Move ''game/b.txt'' ''stage/ModB/b.txt''] @ post"
    using t6 pb tr rm by (simp add: demo_env_def decision_def)
  show ?thesis by (intro conjI; (fact w1 w2 t1 w4 w5 w6 w7))
qed

section \<open>A missing profile\<close>

text \<open>
  C3. When the profile id, or the active profile for an undefined id, resolves to no
  profile, \<open>checkForExternalChanges\<close> rejects with \<open>ProcessCanceled\<close>, and so does
  \<open>dealWithExternalChanges\<close>, which hands back the manifests it was given. The world
  differs from the initial one by the first debug log line only: no query to the
  deployment method, no file operation, no dialog and no event.
\<close>

theorem missing_profile_cancels:
  assumes "resolveProfile state profileId = None"
  shows "checkForExternalChanges env state profileId stagingPath modPaths lastDeployment w =
           (Inl (ProcessCanceled ''Profile no longer exists.''),
            w\<lparr>logs := logs w @ [(''debug'', ''determine external changes'')]\<rparr>) \<and>
         dealWithExternalChanges env state profileId stagingPath modPaths lastDeployment w =
           (Inl (ProcessCanceled ''Profile no longer exists.''), lastDeployment,
            w\<lparr>logs := logs w @ [(''debug'', ''determine external changes'')]\<rparr>)"
  using assms by (simp add: dealWithExternalChanges_def checkForExternalChanges_def log_def)

theorem missing_profile_cancels_witness:
  "resolveProfile demo_state (Some ''p2'') = None \<and>
   checkForExternalChanges demo_env demo_state (Some ''p2'') ''stage'' [([], ''game'')]
     [([], demo_manifest)] (demo_world demo_files) =
     (Inl (ProcessCanceled ''Profile no longer exists.''),
      (demo_world demo_files)\<lparr>logs := logs (demo_world demo_files) @
         [(''debug'', ''determine external changes'')]\<rparr>) \<and>
   dealWithExternalChanges demo_env demo_state (Some ''p2'') ''stage'' [([], ''game'')]
     [([], demo_manifest)] (demo_world demo_files) =
     (Inl (ProcessCanceled ''Profile no longer exists.''), [([], demo_manifest)],
      (demo_world demo_files)\<lparr>logs := logs (demo_world demo_files) @
         [(''debug'', ''determine external changes'')]\<rparr>)"
proof -
  have h: "resolveProfile demo_state (Some ''p2'') = None"
    by (simp add: resolveProfile_def demo_state_def)
  show ?thesis by (rule conjI[OF h missing_profile_cancels[OF h]])
qed

section \<open>An invalid file path\<close>

text \<open>
  C4. The claim that a drop or delete decision with an empty or undefined path fails
  alone, the remaining decisions still being applied, does not hold: with an empty path
  in a drop decision the pass rejects, and the import decision beside it is not carried
  out, although on its own it removes and moves a file.
\<close>

theorem invalid_path_aborts_remaining_decisions:
  "applyFileActions demo_env demo_state (Some ''p1'') ''stage'' (Some ''game'') demo_manifest
     (Some [decision Drop [] ''ModA'', decision Import ''b.txt'' ''ModB''])
     (demo_world demo_files) =
     (Inl (Error ''invalid file path''), demo_world demo_files) \<and>
   ops (snd (applyFileActions demo_env demo_state (Some ''p1'') ''stage'' (Some ''game'')
     demo_manifest (Some [decision Import ''b.txt'' ''ModB'']) (demo_world demo_files))) =
     [Remove ''stage/ModB/b.txt'', Move ''game/b.txt'' ''stage/ModB/b.txt'']"
  by code_simp

text \<open>
  C4, as the code has it. A drop or delete decision (a \<open>newest\<close> decision that
  resolves to drop included) whose path is empty or undefined makes \<open>applyFileActions\<close>
  reject: no manifest is returned, no event is emitted, and the only file operations of
  the pass are removals, so no import was started. When \<open>outputPath\<close> is a string and
  no removal fails, the rejection is the \<open>invalid file path\<close> error.
\<close>

theorem invalid_file_path_rejects_pass:
  assumes "d \<in> set fileActions" and "\<not> truthy (filePath d)"
    and "resolveAction d = Drop \<or> resolveAction d = Delete"
  shows "(\<exists>e. fst (applyFileActions env state profileId sourcePath outputPath lastDeployment
                  (Some fileActions) w) = Inl e) \<and>
         events (snd (applyFileActions env state profileId sourcePath outputPath lastDeployment
                  (Some fileActions) w)) = events w \<and>
         (\<exists>ps. ops (snd (applyFileActions env state profileId sourcePath outputPath lastDeployment
                  (Some fileActions) w)) = ops w @ map Remove ps) \<and>
         (outputPath \<noteq> None \<and> (\<forall>p f. fst (removeAsync env p f) = None) \<longrightarrow>
            fst (applyFileActions env state profileId sourcePath outputPath lastDeployment
                  (Some fileActions) w) = Inl (Error ''invalid file path''))"
proof -
  let ?g = "actionGroups fileActions"
  let ?r = "applyFileActions env state profileId sourcePath outputPath lastDeployment
                  (Some fileActions) w"
  have inv_drop: "\<exists>e. fst (promise_map (drop_entry env outputPath) (group ?g Drop) w0) = Some e"
    if "resolveAction d = Drop" for w0
    using that assms(1,2)
    by (intro promise_map_rejects[of d _ _ "Error ''invalid file path''"])
      (simp_all add: group_actionGroups drop_entry_invalid)
  have inv_delete: "\<exists>e. fst (promise_map (delete_entry env sourcePath) (group ?g Delete) w0) = Some e"
    if "resolveAction d = Delete" for w0
    using that assms(1,2)
    by (intro promise_map_rejects[of d _ _ "Error ''invalid file path''"])
      (simp_all add: group_actionGroups delete_entry_invalid)
  show ?thesis
  proof (rule applyFileActions_Some_cases[of env outputPath fileActions w state profileId
        sourcePath lastDeployment])
    fix e
    assume e: "fst (promise_map (drop_entry env outputPath) (group ?g Drop) w) = Some e"
      and r: "?r = (Inl e, snd (promise_map (drop_entry env outputPath) (group ?g Drop) w))"
    have "outputPath \<noteq> None \<and> (\<forall>p f. fst (removeAsync env p f) = None) \<longrightarrow>
            e = Error ''invalid file path''"
      using drop_step_error e by fastforce
    then show ?thesis
      unfolding r using drop_step_frame[of env outputPath "group ?g Drop" w] by simp
  next
    fix w1 e
    assume 1: "promise_map (drop_entry env outputPath) (group ?g Drop) w = (None, w1)"
      and e: "fst (promise_map (delete_entry env sourcePath) (group ?g Delete) w1) = Some e"
      and r: "?r = (Inl e, snd (promise_map (delete_entry env sourcePath) (group ?g Delete) w1))"
    have f1: "events w1 = events w \<and> (\<exists>ps. ops w1 = ops w @ map Remove ps)"
      using drop_step_frame[of env outputPath "group ?g Drop" w] 1 by simp
    have f2: "events (snd (promise_map (delete_entry env sourcePath) (group ?g Delete) w1)) = events w1 \<and>
       (\<exists>ps. ops (snd (promise_map (delete_entry env sourcePath) (group ?g Delete) w1)) =
          ops w1 @ map Remove ps)"
      by (rule delete_step_frame)
    from f1 f2 obtain ps qs where
      "ops w1 = ops w @ map Remove ps"
      "ops (snd (promise_map (delete_entry env sourcePath) (group ?g Delete) w1)) =
          ops w1 @ map Remove qs" by blast
    then have o: "ops (snd (promise_map (delete_entry env sourcePath) (group ?g Delete) w1)) =
          ops w @ map Remove (ps @ qs)" by simp
    have "(\<forall>p f. fst (removeAsync env p f) = None) \<longrightarrow> e = Error ''invalid file path''"
      using delete_step_error e by fastforce
    then show ?thesis
      unfolding r using f1 f2 o by (simp del: map_append) blast
  next
    fix w1 w2 e
    assume 1: "promise_map (drop_entry env outputPath) (group ?g Drop) w = (None, w1)"
      and 2: "promise_map (delete_entry env sourcePath) (group ?g Delete) w1 = (None, w2)"
    from assms(3) show ?thesis
    proof
      assume "resolveAction d = Drop"
      from inv_drop[OF this, of w] 1 show ?thesis by simp
    next
      assume "resolveAction d = Delete"
      from inv_delete[OF this, of w1] 2 show ?thesis by simp
    qed
  next
    fix w1 w2 w3
    assume 1: "promise_map (drop_entry env outputPath) (group ?g Drop) w = (None, w1)"
      and 2: "promise_map (delete_entry env sourcePath) (group ?g Delete) w1 = (None, w2)"
    from assms(3) show ?thesis
    proof
      assume "resolveAction d = Drop"
      from inv_drop[OF this, of w] 1 show ?thesis by simp
    next
      assume "resolveAction d = Delete"
      from inv_delete[OF this, of w1] 2 show ?thesis by simp
    qed
  qed
qed

theorem invalid_file_path_rejects_pass_witness:
  "fst (applyFileActions demo_env demo_state (Some ''p1'') ''stage'' (Some ''game'') demo_manifest
          (Some [decision Drop [] ''ModA'', decision Import ''b.txt'' ''ModB''])
          (demo_world demo_files)) = Inl (Error ''invalid file path'') \<and>
   events (snd (applyFileActions demo_env demo_state (Some ''p1'') ''stage'' (Some ''game'')
          demo_manifest (Some [decision Drop [] ''ModA'', decision Import ''b.txt'' ''ModB''])
          (demo_world demo_files))) = events (demo_world demo_files)"
proof -
  have p1: "decision Drop [] ''ModA'' \<in> set [decision Drop [] ''ModA'', decision Import ''b.txt'' ''ModB'']"
    by simp
  have p2: "\<not> truthy (filePath (decision Drop [] ''ModA''))"
    by (simp add: decision_def truthy_def)
  have p3: "resolveAction (decision Drop [] ''ModA'') = Drop \<or>
            resolveAction (decision Drop [] ''ModA'') = Delete"
    by (simp add: decision_def resolveAction_def)
  have p4: "Some ''game'' \<noteq> None \<and> (\<forall>p f. fst (removeAsync demo_env p f) = None)"
    by (simp add: demo_env_def demo_remove_def)
  from invalid_file_path_rejects_pass[OF p1 p2 p3, of demo_env demo_state "Some ''p1''" "''stage''"
      "Some ''game''" demo_manifest "demo_world demo_files"] p4
  show ?thesis by blast
qed

section \<open>Import: remove, then move\<close>

text \<open>
  C5. For an import decision with path \<open>p\<close> and source mod \<open>m\<close> the executor starts
  the task that removes \<open>sourcePath/m/p\<close> and, when the removal succeeded, moves
  \<open>outputPath/p\<close> onto it; these are all the file operations of the task, and of a
  pass made of this one decision. The task never rejects with an \<open>ENOENT\<close> error: when
  the removal or the move fails with one, the task resolves and one warning is logged,
  and the pass of this one decision resolves with the manifest without the row of
  \<open>p\<close> and with that warning in its log. In a pass of several decisions with non-empty
  paths in which no removal fails, the removal and, after it, the move of this decision
  are among the operations issued; and such a pass resolves when moves fail with
  \<open>ENOENT\<close> at most.
\<close>

theorem import_removes_then_moves:
  assumes "filePath d = Some p"
    and "src = path_join env [sourcePath, source d, p]"
    and "dep = path_join env [out, p]"
  shows "import_entry env sourcePath (Some out) d = Inr (import_task env src dep) \<and>
         (\<forall>w. ops (snd (import_task env src dep w)) =
                ops w @ (if fst (removeAsync env src (fs w)) = None
                         then [Remove src, Move dep src] else [Remove src])) \<and>
         (\<forall>w e. fst (import_task env src dep w) = Some e \<longrightarrow> \<not> is_ENOENT e) \<and>
         (\<forall>w e. (fst (removeAsync env src (fs w)) = Some e \<or>
                  fst (removeAsync env src (fs w)) = None \<and>
                  fst (moveAsync env dep src (snd (removeAsync env src (fs w)))) = Some e) \<and>
                 is_ENOENT e \<longrightarrow>
                 fst (import_task env src dep w) = None \<and>
                 logs (snd (import_task env src dep w)) =
                   logs w @ [(''warn'', ''file disappeared'')]) \<and>
         (\<forall>w. resolveAction d = Import \<longrightarrow>
              ops (snd (applyFileActions env state profileId sourcePath (Some out) lastDeployment
                     (Some [d]) w)) =
                ops w @ (if fst (removeAsync env src (fs w)) = None
                         then [Remove src, Move dep src] else [Remove src])) \<and>
         (\<forall>w e. resolveAction d = Import \<and>
                 (fst (removeAsync env src (fs w)) = Some e \<or>
                  fst (removeAsync env src (fs w)) = None \<and>
                  fst (moveAsync env dep src (snd (removeAsync env src (fs w)))) = Some e) \<and>
                 is_ENOENT e \<longrightarrow>
                 fst (applyFileActions env state profileId sourcePath (Some out) lastDeployment
                        (Some [d]) w) =
                   Inr (filter (\<lambda>entry. relPath entry \<noteq> p) lastDeployment) \<and>
                 logs (snd (applyFileActions env state profileId sourcePath (Some out)
                        lastDeployment (Some [d]) w)) =
                   logs w @ [(''warn'', ''file disappeared'')]) \<and>
         (\<forall>w. resolveAction d = Import \<and> fst (import_task env src dep w) = None \<longrightarrow>
              fst (applyFileActions env state profileId sourcePath (Some out) lastDeployment
                     (Some [d]) w) =
                Inr (filter (\<lambda>entry. relPath entry \<noteq> p) lastDeployment)) \<and>
         (\<forall>fileActions w.
              d \<in> set fileActions \<and> resolveAction d = Import \<and>
              (\<forall>x \<in> set fileActions. truthy (filePath x)) \<and>
              (\<forall>q f. fst (removeAsync env q f) = None) \<longrightarrow>
              (\<exists>pre mid post.
                 ops (snd (applyFileActions env state profileId sourcePath (Some out)
                        lastDeployment (Some fileActions) w)) =
                   ops w @ pre @ [Remove src] @ mid @ [Move dep src] @ post)) \<and>
         (\<forall>fileActions w.
              (\<forall>x \<in> set fileActions. truthy (filePath x)) \<and>
              (\<forall>q f. fst (removeAsync env q f) = None) \<and>
              (\<forall>a b f e. fst (moveAsync env a b f) = Some e \<longrightarrow> is_ENOENT e) \<longrightarrow>
              (\<exists>m. fst (applyFileActions env state profileId sourcePath (Some out)
                        lastDeployment (Some fileActions) w) = Inr m))"
proof -
  have c1: "import_entry env sourcePath (Some out) d = Inr (import_task env src dep)"
    unfolding assms(2,3) by (rule import_entry_Some[OF assms(1)])
  have c2: "\<forall>w. ops (snd (import_task env src dep w)) =
                ops w @ (if fst (removeAsync env src (fs w)) = None
                         then [Remove src, Move dep src] else [Remove src])"
    by (simp only: import_task_ops simp_thms)
  have c3: "\<forall>w e. fst (import_task env src dep w) = Some e \<longrightarrow> \<not> is_ENOENT e"
    using import_task_not_ENOENT by blast
  have c4: "\<forall>w e. (fst (removeAsync env src (fs w)) = Some e \<or>
                  fst (removeAsync env src (fs w)) = None \<and>
                  fst (moveAsync env dep src (snd (removeAsync env src (fs w)))) = Some e) \<and>
                 is_ENOENT e \<longrightarrow>
                 fst (import_task env src dep w) = None \<and>
                 logs (snd (import_task env src dep w)) =
                   logs w @ [(''warn'', ''file disappeared'')]"
    using import_task_ENOENT[of env src _ _ dep] by blast
  have c5: "\<forall>w. resolveAction d = Import \<longrightarrow>
              ops (snd (applyFileActions env state profileId sourcePath (Some out) lastDeployment
                     (Some [d]) w)) =
                ops w @ (if fst (removeAsync env src (fs w)) = None
                         then [Remove src, Move dep src] else [Remove src])"
    unfolding assms(2,3) using single_import_pass_ops[OF assms(1)] by blast
  have c6: "\<forall>w e. resolveAction d = Import \<and>
                 (fst (removeAsync env src (fs w)) = Some e \<or>
                  fst (removeAsync env src (fs w)) = None \<and>
                  fst (moveAsync env dep src (snd (removeAsync env src (fs w)))) = Some e) \<and>
                 is_ENOENT e \<longrightarrow>
                 fst (applyFileActions env state profileId sourcePath (Some out) lastDeployment
                        (Some [d]) w) =
                   Inr (filter (\<lambda>entry. relPath entry \<noteq> p) lastDeployment) \<and>
                 logs (snd (applyFileActions env state profileId sourcePath (Some out)
                        lastDeployment (Some [d]) w)) =
                   logs w @ [(''warn'', ''file disappeared'')]"
    unfolding assms(2,3) using single_import_pass_ENOENT[OF assms(1)] by blast
  have c7: "\<forall>w. resolveAction d = Import \<and> fst (import_task env src dep w) = None \<longrightarrow>
              fst (applyFileActions env state profileId sourcePath (Some out) lastDeployment
                     (Some [d]) w) =
                Inr (filter (\<lambda>entry. relPath entry \<noteq> p) lastDeployment)"
    unfolding assms(2,3) using single_import_pass[OF assms(1)] by blast
  have c8: "\<forall>fileActions w.
              d \<in> set fileActions \<and> resolveAction d = Import \<and>
              (\<forall>x \<in> set fileActions. truthy (filePath x)) \<and>
              (\<forall>q f. fst (removeAsync env q f) = None) \<longrightarrow>
              (\<exists>pre mid post.
                 ops (snd (applyFileActions env state profileId sourcePath (Some out)
                        lastDeployment (Some fileActions) w)) =
                   ops w @ pre @ [Remove src] @ mid @ [Move dep src] @ post)"
    unfolding assms(2,3) using import_decision_removes_then_moves[OF _ _ assms(1)] by blast
  have c9: "\<forall>fileActions w.
              (\<forall>x \<in> set fileActions. truthy (filePath x)) \<and>
              (\<forall>q f. fst (removeAsync env q f) = None) \<and>
              (\<forall>a b f e. fst (moveAsync env a b f) = Some e \<longrightarrow> is_ENOENT e) \<longrightarrow>
              (\<exists>m. fst (applyFileActions env state profileId sourcePath (Some out)
                        lastDeployment (Some fileActions) w) = Inr m)"
    using applyFileActions_resolves by blast
  show ?thesis by (intro conjI; fact)
qed

theorem import_removes_then_moves_witness:
  "import_entry demo_env ''stage'' (Some ''game'') (decision Import ''b.txt'' ''ModB'') =
     Inr (import_task demo_env ''stage/ModB/b.txt'' ''game/b.txt'') \<and>
   ops (snd (applyFileActions demo_env demo_state (Some ''p1'') ''stage'' (Some ''game'')
          demo_manifest (Some [decision Import ''b.txt'' ''ModB'']) (demo_world demo_files))) =
     [Remove ''stage/ModB/b.txt'', Move ''game/b.txt'' ''stage/ModB/b.txt''] \<and>
   fst (applyFileActions demo_env demo_state (Some ''p1'') ''stage'' (Some ''game'') demo_manifest
          (Some [decision Import ''b.txt'' ''ModB'']) (demo_world [])) =
     Inr (filter (\<lambda>entry. relPath entry \<noteq> ''b.txt'') demo_manifest) \<and>
   logs (snd (applyFileActions demo_env demo_state (Some ''p1'') ''stage'' (Some ''game'')
          demo_manifest (Some [decision Import ''b.txt'' ''ModB'']) (demo_world []))) =
     [(''warn'', ''file disappeared'')] \<and>
   (\<exists>pre mid post.
      ops (snd (applyFileActions demo_env demo_state (Some ''p1'') ''stage'' (Some ''game'')
             demo_manifest
             (Some [decision Import ''d.txt'' ''ModD'', decision Import ''b.txt'' ''ModB''])
             (demo_world demo_files))) =
        ops (demo_world demo_files) @ pre @ [Remove ''stage/ModB/b.txt''] @ mid @
          [Move ''game/b.txt'' ''stage/ModB/b.txt''] @ post) \<and>
   (\<exists>m. fst (applyFileActions demo_env demo_state (Some ''p1'') ''stage'' (Some ''game'')
             demo_manifest
             (Some [decision Import ''d.txt'' ''ModD'', decision Import ''b.txt'' ''ModB''])
             (demo_world demo_files)) = Inr m)"
proof -
  let ?d = "decision Import ''b.txt'' ''ModB''"
  let ?fa = "[decision Import ''d.txt'' ''ModD'', ?d]"
  have p1: "filePath ?d = Some ''b.txt''" by (simp add: decision_def)
  have p2: "''stage/ModB/b.txt'' = path_join demo_env [''stage'', source ?d, ''b.txt'']"
    by (simp add: demo_env_def decision_def)
  have p3: "''game/b.txt'' = path_join demo_env [''game'', ''b.txt'']"
    by (simp add: demo_env_def)
  note t = import_removes_then_moves[OF p1 p2 p3, of demo_state "Some ''p1''" demo_manifest]
  have a: "resolveAction ?d = Import" by (simp add: decision_def resolveAction_def)
  have r: "fst (removeAsync demo_env ''stage/ModB/b.txt'' (fs (demo_world demo_files))) = None"
    by (simp add: demo_env_def demo_remove_def)
  have e: "(fst (removeAsync demo_env ''stage/ModB/b.txt'' (fs (demo_world []))) =
              Some (FsError ''ENOENT'' ''game/b.txt'') \<or>
            fst (removeAsync demo_env ''stage/ModB/b.txt'' (fs (demo_world []))) = None \<and>
            fst (moveAsync demo_env ''game/b.txt'' ''stage/ModB/b.txt''
                   (snd (removeAsync demo_env ''stage/ModB/b.txt'' (fs (demo_world []))))) =
              Some (FsError ''ENOENT'' ''game/b.txt'')) \<and>
           is_ENOENT (FsError ''ENOENT'' ''game/b.txt'')"
    by (simp add: demo_env_def demo_remove_def demo_move_def demo_world_def)
  have tr: "\<forall>x \<in> set ?fa. truthy (filePath x)" by (simp add: decision_def truthy_def)
  have rm: "\<forall>q f. fst (removeAsync demo_env q f) = None"
    by (simp add: demo_env_def demo_remove_def)
  have mv: "\<forall>a b f e. fst (moveAsync demo_env a b f) = Some e \<longrightarrow> is_ENOENT e"
    by (simp add: demo_env_def demo_move_def)
  have m: "?d \<in> set ?fa" by simp
  have c1: "import_entry demo_env ''stage'' (Some ''game'') ?d =
     Inr (import_task demo_env ''stage/ModB/b.txt'' ''game/b.txt'')"
    using t by blast
  have "ops (snd (applyFileActions demo_env demo_state (Some ''p1'') ''stage'' (Some ''game'')
          demo_manifest (Some [?d]) (demo_world demo_files))) =
     ops (demo_world demo_files) @
       (if fst (removeAsync demo_env ''stage/ModB/b.txt'' (fs (demo_world demo_files))) = None
        then [Remove ''stage/ModB/b.txt'', Move ''game/b.txt'' ''stage/ModB/b.txt'']
        else [Remove ''stage/ModB/b.txt''])"
    using t a by blast
  then have c2: "ops (snd (applyFileActions demo_env demo_state (Some ''p1'') ''stage''
          (Some ''game'') demo_manifest (Some [?d]) (demo_world demo_files))) =
     [Remove ''stage/ModB/b.txt'', Move ''game/b.txt'' ''stage/ModB/b.txt'']"
    using r by (simp add: demo_world_def)
  have c3: "fst (applyFileActions demo_env demo_state (Some ''p1'') ''stage'' (Some ''game'')
          demo_manifest (Some [?d]) (demo_world [])) =
     Inr (filter (\<lambda>entry. relPath entry \<noteq> ''b.txt'') demo_manifest) \<and>
   logs (snd (applyFileActions demo_env demo_state (Some ''p1'') ''stage'' (Some ''game'')
          demo_manifest (Some [?d]) (demo_world []))) =
     logs (demo_world []) @ [(''warn'', ''file disappeared'')]"
    using t a e by blast
  have c4: "\<exists>pre mid post.
      ops (snd (applyFileActions demo_env demo_state (Some ''p1'') ''stage'' (Some ''game'')
             demo_manifest (Some ?fa) (demo_world demo_files))) =
        ops (demo_world demo_files) @ pre @ [Remove ''stage/ModB/b.txt''] @ mid @
          [Move ''game/b.txt'' ''stage/ModB/b.txt''] @ post"
    using t m a tr rm by blast
  have c5: "\<exists>m. fst (applyFileActions demo_env demo_state (Some ''p1'') ''stage'' (Some ''game'')
             demo_manifest (Some ?fa) (demo_world demo_files)) = Inr m"
    using t tr rm mv by blast
  show ?thesis using c1 c2 c3 c4 c5 by (simp add: demo_world_def)
qed

section \<open>One event for each affected mod\<close>

text \<open>
  C6. A pass that resolves emits, after the events already there, exactly one
  \<open>mod-content-changed\<close> event for each mod id that is the source of a decision with
  action import, newest, nop, delete or drop, however many of its files were decided
  on; a mod that occurs in restore decisions only gets none.
\<close>

theorem one_event_per_affected_mod:
  assumes "fst (applyFileActions env state profileId sourcePath outputPath lastDeployment
             (Some fileActions) w) = Inr m"
  shows "\<exists>new. events (snd (applyFileActions env state profileId sourcePath outputPath
                   lastDeployment (Some fileActions) w)) = events w @ new \<and>
           distinct (map snd new) \<and>
           set (map snd new) =
             {source d |d. d \<in> set fileActions \<and>
                action d \<in> {Import, Newest, Nop, Delete, Drop}} \<and>
           (\<forall>modId. (\<forall>d \<in> set fileActions. source d = modId \<longrightarrow> action d = Restore) \<longrightarrow>
                  modId \<notin> set (map snd new))"
proof -
  let ?r = "applyFileActions env state profileId sourcePath outputPath lastDeployment
          (Some fileActions) w"
  let ?new = "map (\<lambda>affected. (eventGameId state profileId, affected)) (affectedMods fileActions)"
  have "?r = (Inr m, snd ?r)" using assms by (simp add: prod_eq_iff)
  from applyFileActions_resolved(2)[OF this]
  have ev: "events (snd ?r) = events w @ ?new" .
  have sn: "map snd ?new = affectedMods fileActions" by (simp add: comp_def)
  have d: "distinct (affectedMods fileActions)"
    by (simp add: affectedMods_def distinct_foldl_affected)
  have s: "set (affectedMods fileActions) =
      {source d |d. d \<in> set fileActions \<and> action d \<in> {Import, Newest, Nop, Delete, Drop}}"
    by (simp add: affectedMods_def set_foldl_affected)
  have r: "\<forall>modId. (\<forall>d \<in> set fileActions. source d = modId \<longrightarrow> action d = Restore) \<longrightarrow>
                  modId \<notin> set (affectedMods fileActions)"
  proof (intro allI impI notI)
    fix modId
    assume a: "\<forall>d \<in> set fileActions. source d = modId \<longrightarrow> action d = Restore"
      and "modId \<in> set (affectedMods fileActions)"
    then obtain d where "d \<in> set fileActions" "source d = modId"
      "action d \<in> {Import, Newest, Nop, Delete, Drop}"
      unfolding s by blast
    with a show False by auto
  qed
  show ?thesis
    by (rule exI[of _ ?new], unfold sn, intro conjI) (fact ev, fact d, fact s, fact r)
qed

theorem one_event_per_affected_mod_witness:
  "fst (applyFileActions demo_env demo_state (Some ''p1'') ''stage'' (Some ''game'') demo_manifest
          (Some demo_decisions) (demo_world demo_files)) = Inr [deployed_file ''c.txt'' ''ModC''] \<and>
   (\<exists>new. events (snd (applyFileActions demo_env demo_state (Some ''p1'') ''stage'' (Some ''game'')
                   demo_manifest (Some demo_decisions) (demo_world demo_files))) =
             events (demo_world demo_files) @ new \<and>
           distinct (map snd new) \<and>
           set (map snd new) =
             {source d |d. d \<in> set demo_decisions \<and>
                action d \<in> {Import, Newest, Nop, Delete, Drop}} \<and>
           (\<forall>modId. (\<forall>d \<in> set demo_decisions. source d = modId \<longrightarrow> action d = Restore) \<longrightarrow>
                  modId \<notin> set (map snd new)))"
proof -
  have h: "fst (applyFileActions demo_env demo_state (Some ''p1'') ''stage'' (Some ''game'')
          demo_manifest (Some demo_decisions) (demo_world demo_files)) =
        Inr [deployed_file ''c.txt'' ''ModC'']"
    by code_simp
  show ?thesis by (rule conjI[OF h one_event_per_affected_mod[OF h]])
qed

section \<open>The game id of the events\<close>

text \<open>
  C7. The events do not carry the profile's game id: for the profile \<open>p1\<close> of the
  game \<open>skyrim\<close> the first argument of every event is \<open>p1\<close>, the profile's own id,
  which \<open>applyFileActions\<close> reads with \<open>profile.id\<close> where
  \<open>checkForExternalChanges\<close> reads \<open>profile.gameId\<close>.
\<close>

theorem event_carries_profile_id:
  "events (snd (applyFileActions demo_env demo_state (Some ''p1'') ''stage'' (Some ''game'')
     demo_manifest (Some demo_decisions) (demo_world demo_files))) =
     [(Some ''p1'', ''ModB''), (Some ''p1'', ''ModC'')] \<and>
   map_option gameId (profiles demo_state ''p1'') = Some ''skyrim''"
  by code_simp

section \<open>No decisions\<close>

text \<open>
  C8. With an undefined or an empty decision list \<open>applyFileActions\<close> returns the
  manifest it was given and leaves the world as it is: no file operation, no log line and
  no event. Hence, when detection finds no change, \<open>dealWithExternalChanges\<close> resolves
  and hands back the manifests unchanged, without a file operation, an event or a
  dialog.
\<close>

theorem no_decisions_is_identity:
  "applyFileActions env state profileId sourcePath outputPath lastDeployment None w =
     (Inr lastDeployment, w) \<and>
   applyFileActions env state profileId sourcePath outputPath lastDeployment (Some []) w =
     (Inr lastDeployment, w) \<and>
   (fst (checkForExternalChanges env state profileId sourcePath modPaths manifests w) = Inr [] \<longrightarrow>
      (\<exists>res. dealWithExternalChanges env state profileId sourcePath modPaths manifests w =
         (Inr res, manifests,
          snd (checkForExternalChanges env state profileId sourcePath modPaths manifests w))) \<and>
      fs (snd (checkForExternalChanges env state profileId sourcePath modPaths manifests w)) = fs w \<and>
      ops (snd (checkForExternalChanges env state profileId sourcePath modPaths manifests w)) = ops w \<and>
      events (snd (checkForExternalChanges env state profileId sourcePath modPaths manifests w)) = events w \<and>
      shown (snd (checkForExternalChanges env state profileId sourcePath modPaths manifests w)) = shown w)"
proof (intro conjI impI)
  show "applyFileActions env state profileId sourcePath outputPath lastDeployment None w =
     (Inr lastDeployment, w)" by (rule applyFileActions_None)
  show "applyFileActions env state profileId sourcePath outputPath lastDeployment (Some []) w =
     (Inr lastDeployment, w)" by (rule applyFileActions_Nil)
next
  let ?c = "checkForExternalChanges env state profileId sourcePath modPaths manifests w"
  assume "fst ?c = Inr []"
  then have c: "?c = (Inr [], snd ?c)" by (simp add: prod_eq_iff)
  obtain res where
    "apply_each env state profileId sourcePath modPaths (Some []) (map fst manifests) manifests []
       (snd ?c) = (Inr res, manifests, snd ?c)"
    using apply_each_no_decisions[of "map fst manifests" manifests env state profileId sourcePath
        modPaths "[]" "snd ?c"] by auto
  then have "dealWithExternalChanges env state profileId sourcePath modPaths manifests w =
         (Inr res, manifests, snd ?c)"
    unfolding dealWithExternalChanges_def by (subst c) simp
  then show "\<exists>res. dealWithExternalChanges env state profileId sourcePath modPaths manifests w =
         (Inr res, manifests, snd ?c)" ..
qed (simp_all only: checkForExternalChanges_frame)

theorem no_decisions_is_identity_witness:
  "fst (checkForExternalChanges demo_env demo_state (Some ''p1'') ''stage'' [([], ''game'')]
          [([], demo_manifest)] (demo_world (''game/a.txt'' # demo_files))) = Inr [] \<and>
   (\<exists>res. dealWithExternalChanges demo_env demo_state (Some ''p1'') ''stage'' [([], ''game'')]
          [([], demo_manifest)] (demo_world (''game/a.txt'' # demo_files)) =
        (Inr res, [([], demo_manifest)],
         snd (checkForExternalChanges demo_env demo_state (Some ''p1'') ''stage'' [([], ''game'')]
          [([], demo_manifest)] (demo_world (''game/a.txt'' # demo_files))))) \<and>
   applyFileActions demo_env demo_state (Some ''p1'') ''stage'' (Some ''game'') demo_manifest
     (Some []) (demo_world demo_files) = (Inr demo_manifest, demo_world demo_files)"
proof -
  have h: "fst (checkForExternalChanges demo_env demo_state (Some ''p1'') ''stage'' [([], ''game'')]
          [([], demo_manifest)] (demo_world (''game/a.txt'' # demo_files))) = Inr []"
    by code_simp
  note t = no_decisions_is_identity[of demo_env demo_state "Some ''p1''" "''stage''"
      "Some ''game''" demo_manifest "demo_world demo_files" "[([], ''game'')]"
      "[([], demo_manifest)]"]
  note u = no_decisions_is_identity[of demo_env demo_state "Some ''p1''" "''stage''"
      "Some ''game''" demo_manifest "demo_world (''game/a.txt'' # demo_files)" "[([], ''game'')]"
      "[([], demo_manifest)]"]
  from t have a: "applyFileActions demo_env demo_state (Some ''p1'') ''stage'' (Some ''game'')
     demo_manifest (Some []) (demo_world demo_files) = (Inr demo_manifest, demo_world demo_files)"
    by blast
  from u h have b: "\<exists>res. dealWithExternalChanges demo_env demo_state (Some ''p1'') ''stage''
          [([], ''game'')] [([], demo_manifest)] (demo_world (''game/a.txt'' # demo_files)) =
        (Inr res, [([], demo_manifest)],
         snd (checkForExternalChanges demo_env demo_state (Some ''p1'') ''stage'' [([], ''game'')]
          [([], demo_manifest)] (demo_world (''game/a.txt'' # demo_files))))"
    by blast
  show ?thesis by (intro conjI; fact)
qed

section \<open>The caller's manifests are updated in place\<close>

text \<open>
  C9. When \<open>dealWithExternalChanges\<close> resolves, the object \<open>lastDeployment\<close> has
  the keys it had, and under every mod type the manifest that \<open>applyFileActions\<close>
  returns for the former manifest of that type and the decisions whose \<open>modTypeId\<close> is
  that type: the former rows without those invalidated by these decisions. The decisions
  are the answer of the dialog when detection found changes, none otherwise.
\<close>

theorem lastDeployment_updated_in_place:
  assumes "dealWithExternalChanges env state profileId stagingPath modPaths lastDeployment w =
             (Inr res, lastDeployment', w')"
    and "distinct (map fst lastDeployment)"
  shows "\<exists>changes.
           fst (checkForExternalChanges env state profileId stagingPath modPaths lastDeployment w) =
             Inr changes \<and>
           map fst lastDeployment' = map fst lastDeployment \<and>
           (\<forall>typeId deployed. map_of lastDeployment typeId = Some deployed \<longrightarrow>
              (\<exists>fileActions.
                 (if length changes > 0 then showExternalChanges env changes
                  else Inr (Some [])) = Inr (Some fileActions) \<and>
                 map_of lastDeployment' typeId =
                   Some (filter (\<lambda>entry. \<not> invalidated
                           (filter (\<lambda>a. modTypeId a = typeId) fileActions) (relPath entry))
                         deployed)))"
proof -
  let ?c = "checkForExternalChanges env state profileId stagingPath modPaths lastDeployment w"
  obtain rc w1 where c: "?c = (rc, w1)" by (cases ?c)
  obtain changes where rc: "rc = Inr changes"
    using assms(1) c by (cases rc) (simp_all add: dealWithExternalChanges_def)
  let ?answer = "if length changes > 0 then showExternalChanges env changes else Inr (Some [])"
  let ?w2 = "if length changes > 0
             then (log ''info'' ''found external changes'' w1)\<lparr>shown := shown w1 @ [changes]\<rparr>
             else w1"
  obtain ofa where ra: "?answer = Inr ofa"
    using assms(1) c rc by (cases ?answer) (simp_all add: dealWithExternalChanges_def split: if_splits)
  have ae: "apply_each env state profileId stagingPath modPaths ofa (map fst lastDeployment)
              lastDeployment [] ?w2 = (Inr res, lastDeployment', w')"
    using assms(1) c rc ra by (simp add: dealWithExternalChanges_def split: if_splits)
  have keys: "map fst lastDeployment' = map fst lastDeployment"
  proof (cases ofa)
    case None
    then show ?thesis using ae by (cases "map fst lastDeployment") simp_all
  next
    case (Some fa)
    then show ?thesis using apply_each_resolved[OF ae[unfolded Some] assms(2)] by simp
  qed
  have look: "\<exists>fileActions. ?answer = Inr (Some fileActions) \<and>
                 map_of lastDeployment' typeId =
                   Some (filter (\<lambda>entry. \<not> invalidated
                           (filter (\<lambda>a. modTypeId a = typeId) fileActions) (relPath entry))
                         deployed)"
    if s: "map_of lastDeployment typeId = Some deployed" for typeId deployed
  proof -
    have mem: "typeId \<in> set (map fst lastDeployment)"
      using s by (metis domI dom_map_of_conv_image_fst set_map)
    obtain fa where ofa: "ofa = Some fa"
    proof (cases ofa)
      case None
      then show ?thesis using ae mem by (cases "map fst lastDeployment") simp_all
    next
      case (Some fa)
      then show ?thesis by (rule that)
    qed
    have "map_of lastDeployment' typeId =
                   Some (filter (\<lambda>entry. \<not> invalidated
                           (filter (\<lambda>a. modTypeId a = typeId) fa) (relPath entry))
                         deployed)"
      using apply_each_resolved[OF ae[unfolded ofa] assms(2)] s mem by simp
    then show ?thesis using ra ofa by blast
  qed
  show ?thesis
    by (rule exI[of _ changes]) (use c rc keys look in simp)
qed

theorem lastDeployment_updated_in_place_witness:
  "dealWithExternalChanges demo_env demo_state (Some ''p1'') ''stage'' [([], ''game'')]
     [([], demo_manifest)] (demo_world demo_files) =
     (Inr [[deployed_file ''b.txt'' ''ModB'', deployed_file ''c.txt'' ''ModC'']],
      [([], [deployed_file ''b.txt'' ''ModB'', deployed_file ''c.txt'' ''ModC''])],
      \<lparr>fs = demo_files, ops = [Remove ''game/a.txt''],
       logs = [(''debug'', ''determine external changes''),
               (''debug'', ''checking external changes''),
               (''info'', ''found external changes'')],
       events = [(Some ''p1'', ''ModA'')], queries = [[]],
       shown = [[([], [IFileChange ''a.txt'' ''ModA'' ''deleted''])]]\<rparr>) \<and>
   (\<exists>changes.
      fst (checkForExternalChanges demo_env demo_state (Some ''p1'') ''stage'' [([], ''game'')]
             [([], demo_manifest)] (demo_world demo_files)) = Inr changes \<and>
      map fst [([] :: string, [deployed_file ''b.txt'' ''ModB'', deployed_file ''c.txt'' ''ModC''])] =
        map fst [([], demo_manifest)] \<and>
      (\<forall>typeId deployed. map_of [([], demo_manifest)] typeId = Some deployed \<longrightarrow>
         (\<exists>fileActions.
            (if length changes > 0 then showExternalChanges demo_env changes
             else Inr (Some [])) = Inr (Some fileActions) \<and>
            map_of [([], [deployed_file ''b.txt'' ''ModB'', deployed_file ''c.txt'' ''ModC''])]
                typeId =
              Some (filter (\<lambda>entry. \<not> invalidated
                      (filter (\<lambda>a. modTypeId a = typeId) fileActions) (relPath entry))
                    deployed))))"
proof -
  have h: "dealWithExternalChanges demo_env demo_state (Some ''p1'') ''stage'' [([], ''game'')]
     [([], demo_manifest)] (demo_world demo_files) =
     (Inr [[deployed_file ''b.txt'' ''ModB'', deployed_file ''c.txt'' ''ModC'']],
      [([], [deployed_file ''b.txt'' ''ModB'', deployed_file ''c.txt'' ''ModC''])],
      \<lparr>fs = demo_files, ops = [Remove ''game/a.txt''],
       logs = [(''debug'', ''determine external changes''),
               (''debug'', ''checking external changes''),
               (''info'', ''found external changes'')],
       events = [(Some ''p1'', ''ModA'')], queries = [[]],
       shown = [[([], [IFileChange ''a.txt'' ''ModA'' ''deleted''])]]\<rparr>)"
    by code_simp
  have d: "distinct (map fst [([], demo_manifest)])" by simp
  show ?thesis by (rule conjI[OF h lastDeployment_updated_in_place[OF h d]])
qed

section \<open>A mod type without a manifest\<close>

text \<open>
  C10. When a key of \<open>modPaths\<close> has no entry in \<open>lastDeployment\<close>, detection never
  resolves: it rejects. When the profile exists and the deployment method answers every
  query, the rejection is the \<open>TypeError\<close> of reading \<open>length\<close> of \<open>undefined\<close>; the
  missing manifest is not read as an empty one.
\<close>

theorem missing_manifest_rejects:
  assumes "typeId \<in> set (map fst modPaths)" and "map_of lastDeployment typeId = None"
  shows "(\<exists>e. fst (checkForExternalChanges env state profileId stagingPath modPaths
                  lastDeployment w) = Inl e) \<and>
         (resolveProfile state profileId \<noteq> None \<and>
          (\<forall>g s m d f. \<exists>c. externalChanges env g s m d f = Inr c) \<longrightarrow>
            fst (checkForExternalChanges env state profileId stagingPath modPaths
                  lastDeployment w) =
              Inl (TypeError ''Cannot read property length of undefined''))"
proof (cases "resolveProfile state profileId")
  case None
  then show ?thesis by (simp add: checkForExternalChanges_def)
next
  case (Some profile)
  let ?w0 = "log ''debug'' ''determine external changes'' w"
  have c: "checkForExternalChanges env state profileId stagingPath modPaths lastDeployment w =
      check_each env profile stagingPath modPaths lastDeployment (map fst modPaths) [] ?w0"
    using Some by (simp add: checkForExternalChanges_def)
  have 1: "\<exists>e. fst (check_each env profile stagingPath modPaths lastDeployment
      (map fst modPaths) [] ?w0) = Inl e"
    by (rule check_each_missing[OF assms])
  have 2: "fst (check_each env profile stagingPath modPaths lastDeployment
      (map fst modPaths) [] ?w0) = Inl (TypeError ''Cannot read property length of undefined'')"
    if "\<forall>g s m d f. \<exists>c. externalChanges env g s m d f = Inr c"
    using that by (rule check_each_missing_TypeError[OF assms])
  show ?thesis unfolding c using 1 2 by blast
qed

theorem missing_manifest_rejects_witness:
  "fst (checkForExternalChanges demo_env demo_state (Some ''p1'') ''stage''
          [([], ''game''), (''plugins'', ''game/plugins'')] [([], demo_manifest)]
          (demo_world demo_files)) =
     Inl (TypeError ''Cannot read property length of undefined'')"
proof -
  have p1: "''plugins'' \<in> set (map fst [([], ''game''), (''plugins'', ''game/plugins'')])"
    by simp
  have p2: "map_of [([], demo_manifest)] ''plugins'' = None" by simp
  have p3: "resolveProfile demo_state (Some ''p1'') \<noteq> None \<and>
            (\<forall>g s m d f. \<exists>c. externalChanges demo_env g s m d f = Inr c)"
    by (simp add: resolveProfile_def demo_state_def demo_env_def demo_changes_def)
  from missing_manifest_rejects[OF p1 p2, of demo_env demo_state "Some ''p1''" "''stage''"
      "demo_world demo_files"] p3
  show ?thesis by blast
qed

end
